theory Spec2Isabelle
  imports Complex_Main
begin

section \<open>JavaScript Numbers\<close>

text \<open>
  Every number of \<^verbatim>\<open>cli.js\<close> is a JavaScript Number, an IEEE 754 binary64 value.
  A finite value is the rational it denotes (\<open>Num 0\<close> is \<open>+0\<close>); \<open>-0\<close>, the two
  infinities and \<open>NaN\<close> are constructors of their own. An arithmetic operation computes
  the exact rational result and rounds it to the nearest binary64 value, ties to even,
  with gradual underflow, and with overflow to infinity when the rounded value needs a
  binary exponent above 1023.
\<close>

datatype jsnum = NaN | PosInf | NegInf | NegZero | Num rat

function bitlen :: "int \<Rightarrow> int" where
  "bitlen n = (if n \<le> 0 then 0 else 1 + bitlen (n div 2))"
  by pat_completeness auto
termination
  by (relation "measure nat") auto

declare bitlen.simps [simp del]

definition pow2 :: "int \<Rightarrow> rat" where
  "pow2 e = (if 0 \<le> e then 2 ^ nat e else 1 / 2 ^ nat (- e))"

text \<open>\<open>flog2 x\<close> is the binary exponent of a positive rational: \<open>2^e \<le> x < 2^(e+1)\<close>.\<close>

definition flog2 :: "rat \<Rightarrow> int" where
  "flog2 x = (let (p, q) = quotient_of x;
                  e0 = bitlen p - bitlen q
              in if pow2 e0 \<le> x then e0 else e0 - 1)"

definition round_half_even :: "rat \<Rightarrow> int" where
  "round_half_even x =
     (let f = \<lfloor>x\<rfloor>; d = x - of_int f
      in if d < 1 / 2 then f
         else if 1 / 2 < d then f + 1
         else if even f then f else f + 1)"

text \<open>
  Rounding of a positive rational to 53 significant bits; below \<open>2^-1022\<close> the quantum
  stays \<open>2^-1074\<close> (subnormal numbers).
\<close>

definition round_pos :: "rat \<Rightarrow> rat" where
  "round_pos x =
     (let q = max (flog2 x - 52) (- 1074)
      in of_int (round_half_even (x / pow2 q)) * pow2 q)"

definition signed_inf :: "bool \<Rightarrow> jsnum" where
  "signed_inf s = (if s then NegInf else PosInf)"

definition signed_zero :: "bool \<Rightarrow> jsnum" where
  "signed_zero s = (if s then NegZero else Num 0)"

definition rnd :: "rat \<Rightarrow> jsnum" where
  "rnd x =
     (if x = 0 then Num 0
      else let y = round_pos \<bar>x\<bar>
           in if y = 0 then signed_zero (x < 0)
              else if 1024 \<le> flog2 y then signed_inf (x < 0)
              else Num (if x < 0 then - y else y))"

fun is_nan :: "jsnum \<Rightarrow> bool" where
  "is_nan NaN = True"
| "is_nan _ = False"

fun is_inf :: "jsnum \<Rightarrow> bool" where
  "is_inf PosInf = True"
| "is_inf NegInf = True"
| "is_inf _ = False"

fun is_zero :: "jsnum \<Rightarrow> bool" where
  "is_zero NegZero = True"
| "is_zero (Num r) = (r = 0)"
| "is_zero _ = False"

fun sign_bit :: "jsnum \<Rightarrow> bool" where
  "sign_bit NegInf = True"
| "sign_bit NegZero = True"
| "sign_bit (Num r) = (r < 0)"
| "sign_bit _ = False"

fun val :: "jsnum \<Rightarrow> rat" where
  "val (Num r) = r"
| "val _ = 0"

text \<open>The operators \<^verbatim>\<open>*\<close>, \<^verbatim>\<open>/\<close>, \<^verbatim>\<open>+\<close>, unary and binary \<^verbatim>\<open>-\<close>, and \<^verbatim>\<open><\<close> on Numbers.\<close>

definition jmul :: "jsnum \<Rightarrow> jsnum \<Rightarrow> jsnum" where
  "jmul a b =
     (if is_nan a \<or> is_nan b then NaN
      else if is_inf a \<or> is_inf b then
        (if is_zero a \<or> is_zero b then NaN else signed_inf (sign_bit a \<noteq> sign_bit b))
      else if is_zero a \<or> is_zero b then signed_zero (sign_bit a \<noteq> sign_bit b)
      else rnd (val a * val b))"

definition jdiv :: "jsnum \<Rightarrow> jsnum \<Rightarrow> jsnum" where
  "jdiv a b =
     (if is_nan a \<or> is_nan b then NaN
      else if is_inf a then
        (if is_inf b then NaN else signed_inf (sign_bit a \<noteq> sign_bit b))
      else if is_inf b then signed_zero (sign_bit a \<noteq> sign_bit b)
      else if is_zero b then
        (if is_zero a then NaN else signed_inf (sign_bit a \<noteq> sign_bit b))
      else if is_zero a then signed_zero (sign_bit a \<noteq> sign_bit b)
      else rnd (val a / val b))"

definition jadd :: "jsnum \<Rightarrow> jsnum \<Rightarrow> jsnum" where
  "jadd a b =
     (if is_nan a \<or> is_nan b then NaN
      else if is_inf a then (if is_inf b \<and> sign_bit a \<noteq> sign_bit b then NaN else a)
      else if is_inf b then b
      else if is_zero a \<and> is_zero b then signed_zero (sign_bit a \<and> sign_bit b)
      else rnd (val a + val b))"

fun jneg :: "jsnum \<Rightarrow> jsnum" where
  "jneg NaN = NaN"
| "jneg PosInf = NegInf"
| "jneg NegInf = PosInf"
| "jneg NegZero = Num 0"
| "jneg (Num r) = (if r = 0 then NegZero else Num (- r))"

definition jsub :: "jsnum \<Rightarrow> jsnum \<Rightarrow> jsnum" where
  "jsub a b = jadd a (jneg b)"

definition jlt :: "jsnum \<Rightarrow> jsnum \<Rightarrow> bool" where
  "jlt a b =
     (if is_nan a \<or> is_nan b then False
      else if a = NegInf then b \<noteq> NegInf
      else if b = PosInf then a \<noteq> PosInf
      else if a = PosInf \<or> b = NegInf then False
      else val a < val b)"

text \<open>A non-negative integer literal or count as a Number.\<close>

definition num_of_nat :: "nat \<Rightarrow> jsnum" where
  "num_of_nat n = rnd (of_nat n)"

section \<open>Throughput calculator\<close>

text \<open>
  \<^verbatim>\<open>function measureSpeed(bytes, duration) { return (bytes * 8) / (duration / 1000) / 1e6; }\<close>
\<close>

definition measureSpeed :: "jsnum \<Rightarrow> jsnum \<Rightarrow> jsnum" where
  "measureSpeed bytes duration =
     jdiv (jdiv (jmul bytes (Num 8)) (jdiv duration (Num 1000))) (Num 1000000)"

text \<open>
  The specification's formula \<open>throughputMbps(bytes, durationMs) =
  (bytes * 8) / (durationMs / 1000) / 1_000_000\<close>, written out step by step in the
  arithmetic of Numbers: bits, seconds, bits per second, megabits per second.
\<close>

definition throughputMbps_spec :: "jsnum \<Rightarrow> jsnum \<Rightarrow> jsnum" where
  "throughputMbps_spec bytes durationMs =
     (let bits = jmul bytes (Num 8);
          seconds = jdiv durationMs (Num 1000);
          bits_per_second = jdiv bits seconds
      in jdiv bits_per_second (Num 1000000))"

section \<open>Built-in functions used by the program\<close>

text \<open>
  \<^verbatim>\<open>Math.min(...xs)\<close> and \<^verbatim>\<open>Math.max(...xs)\<close>: the result starts at \<open>+Infinity\<close>
  (\<open>-Infinity\<close>), a \<open>NaN\<close> argument makes the result \<open>NaN\<close>, and \<open>-0\<close> is below \<open>+0\<close>.
\<close>

fun min_loop :: "jsnum \<Rightarrow> jsnum list \<Rightarrow> jsnum" where
  "min_loop lowest [] = lowest"
| "min_loop lowest (x # xs) =
     (if is_nan x then NaN
      else if x = NegZero \<and> lowest = Num 0 then min_loop NegZero xs
      else if jlt x lowest then min_loop x xs
      else min_loop lowest xs)"

definition Math_min :: "jsnum list \<Rightarrow> jsnum" where
  "Math_min xs = min_loop PosInf xs"

fun max_loop :: "jsnum \<Rightarrow> jsnum list \<Rightarrow> jsnum" where
  "max_loop highest [] = highest"
| "max_loop highest (x # xs) =
     (if is_nan x then NaN
      else if x = Num 0 \<and> highest = NegZero then max_loop (Num 0) xs
      else if jlt highest x then max_loop x xs
      else max_loop highest xs)"

definition Math_max :: "jsnum list \<Rightarrow> jsnum" where
  "Math_max xs = max_loop NegInf xs"

text \<open>
  \<^verbatim>\<open>parseFloat\<close>: leading white space is skipped, the longest prefix that is a decimal
  literal (sign, \<open>Infinity\<close> or digits with an optional fraction and exponent) is
  converted and rounded, and a string with no such prefix gives \<open>NaN\<close>. Header values
  are strings of one-byte characters.
\<close>

definition is_digit :: "char \<Rightarrow> bool" where
  "is_digit c = (48 \<le> (of_char c :: nat) \<and> (of_char c :: nat) \<le> 57)"

definition digit_val :: "char \<Rightarrow> nat" where
  "digit_val c = of_char c - 48"

definition digits_val :: "string \<Rightarrow> nat" where
  "digits_val ds = foldl (\<lambda>a c. 10 * a + digit_val c) 0 ds"

definition is_space :: "char \<Rightarrow> bool" where
  "is_space c = ((of_char c :: nat) \<in> {9, 10, 11, 12, 13, 32, 160})"

definition split_sign :: "string \<Rightarrow> bool \<times> string" where
  "split_sign t =
     (case t of
        [] \<Rightarrow> (False, t)
      | c # r \<Rightarrow> if c = CHR ''-'' then (True, r) else if c = CHR ''+'' then (False, r) else (False, t))"

definition exponent_part :: "string \<Rightarrow> int" where
  "exponent_part t =
     (case t of
        [] \<Rightarrow> 0
      | c # r \<Rightarrow>
          if c = CHR ''e'' \<or> c = CHR ''E'' then
            (let (neg, u) = split_sign r; ds = takeWhile is_digit u
             in if ds = [] then 0
                else if neg then - int (digits_val ds) else int (digits_val ds))
          else 0)"

definition pow10 :: "int \<Rightarrow> rat" where
  "pow10 e = (if 0 \<le> e then 10 ^ nat e else 1 / 10 ^ nat (- e))"

definition parseFloat :: "string \<Rightarrow> jsnum" where
  "parseFloat s =
     (let (neg, u) = split_sign (dropWhile is_space s)
      in if take 8 u = ''Infinity'' then signed_inf neg
         else
           let ip = takeWhile is_digit u;
               r1 = dropWhile is_digit u;
               (fp, r2) = (case r1 of
                             [] \<Rightarrow> ([], r1)
                           | c # r \<Rightarrow> if c = CHR ''.''
                                      then (takeWhile is_digit r, dropWhile is_digit r)
                                      else ([], r1))
           in if ip = [] \<and> fp = [] then NaN
              else
                let mv = (of_nat (digits_val ip) + of_nat (digits_val fp) / 10 ^ length fp)
                           * pow10 (exponent_part r2)
                in if mv = 0 then signed_zero neg
                   else rnd (if neg then - mv else mv))"

text \<open>The decimal digits of a natural number.\<close>

fun decimal :: "nat \<Rightarrow> string" where
  "decimal n =
     (if n < 10 then [char_of (48 + n)]
      else decimal (n div 10) @ [char_of (48 + n mod 10)])"

declare decimal.simps [simp del]

text \<open>
  \<^verbatim>\<open>`${bytes}`\<close> is \<open>Number::toString\<close> of the Number \<open>bytes\<close>. For a positive
  integer-valued Number \<open>x\<close> it takes the decimal with the fewest significant digits
  that rounds to \<open>x\<close> (the closest one to \<open>x\<close> if there are two, the even one on a
  tie). \<open>shortest x m k\<close> looks for it among the decimals of \<open>k\<close> and more significant
  digits, where \<open>m\<close> is the number of digits of \<open>x\<close>: the candidates with \<open>k\<close> digits are
  the multiples of \<open>10^(m-k)\<close> below and above \<open>x\<close>.
\<close>

function shortest :: "nat \<Rightarrow> nat \<Rightarrow> nat \<Rightarrow> nat" where
  "shortest x m k =
     (let p = 10 ^ (m - k);
          lo = (x div p) * p;
          hi = lo + p;
          ok_lo = (rnd (of_nat lo) = Num (of_nat x));
          ok_hi = (rnd (of_nat hi) = Num (of_nat x))
      in if ok_lo \<and> ok_hi then
           (if x - lo < hi - x then lo
            else if hi - x < x - lo then hi
            else if even (x div p) then lo else hi)
         else if ok_lo then lo
         else if ok_hi then hi
         else if m \<le> k then x
         else shortest x m (Suc k))"
  by pat_completeness auto
termination
  by (relation "measure (\<lambda>(x, m, k). m - k)") auto

declare shortest.simps [simp del]

text \<open>
  A decimal of up to 21 digits is written out in full, its significant digits followed
  by zeros; a longer one is written in exponent notation, as in \<^verbatim>\<open>1e+21\<close> and
  \<^verbatim>\<open>1.5e+21\<close>.
\<close>

definition exponent_notation :: "nat \<Rightarrow> string" where
  "exponent_notation v =
     (let ds = decimal v;
          sig = rev (dropWhile (\<lambda>c. c = CHR ''0'') (rev ds))
      in (if length sig \<le> 1 then sig else hd sig # CHR ''.'' # tl sig)
         @ ''e+'' @ decimal (length ds - 1))"

text \<open>
  \<open>toString n\<close> is \<^verbatim>\<open>`${bytes}`\<close> where \<open>bytes\<close> is the Number that the non-negative
  integer \<open>n\<close> denotes (the nearest Number, as for a literal).
\<close>

definition toString :: "nat \<Rightarrow> string" where
  "toString n =
     (case num_of_nat n of
        Num x \<Rightarrow>
          (if x = 0 then ''0''
           else let i = nat \<lfloor>x\<rfloor>;
                    v = shortest i (length (decimal i)) 1
                in if length (decimal v) \<le> 21 then decimal v else exponent_notation v)
      | PosInf \<Rightarrow> ''Infinity''
      | NegInf \<Rightarrow> ''-Infinity''
      | NegZero \<Rightarrow> ''0''
      | NaN \<Rightarrow> ''NaN'')"

text \<open>
  \<^verbatim>\<open>Buffer.byteLength(data)\<close>: the length of the UTF-8 encoding, one byte for a
  character below 128 and two for the others of the one-byte range.
\<close>

definition byteLength :: "string \<Rightarrow> nat" where
  "byteLength data = sum_list (map (\<lambda>c. if (of_char c :: nat) < 128 then 1 else 2) data)"

section \<open>Timed transfer\<close>

text \<open>
  The seven-element array that \<^verbatim>\<open>request\<close> resolves with. Indices 1 to 4 are variables
  assigned in event callbacks, \<open>None\<close> where the event did not fire (\<^verbatim>\<open>undefined\<close>).
\<close>

record response =
  started :: jsnum
  dnsLookup :: "jsnum option"
  tcpHandshake :: "jsnum option"
  sslHandshake :: "jsnum option"
  ttfb :: "jsnum option"
  ended :: jsnum
  serverTime :: jsnum

text \<open>\<^verbatim>\<open>undefined\<close> in an arithmetic operation is \<open>NaN\<close>.\<close>

fun toNumber :: "jsnum option \<Rightarrow> jsnum" where
  "toNumber None = NaN"
| "toNumber (Some x) = x"

text \<open>
  What the runtime delivers for one request: an \<^verbatim>\<open>error\<close> event on the request (its
  text as \<^verbatim>\<open>`${error}`\<close> renders it); or the events up to the response's \<^verbatim>\<open>end\<close>,
  with the value of \<^verbatim>\<open>performance.now()\<close> in each callback and the
  \<^verbatim>\<open>server-timing\<close> header of the response (\<open>None\<close> when the response has none); or
  neither of the two events. The last is a response that is cut off after its headers
  have arrived, where the runtime emits \<^verbatim>\<open>aborted\<close> and \<^verbatim>\<open>close\<close> on the response,
  and a connection that stalls: \<^verbatim>\<open>request\<close> listens to \<^verbatim>\<open>readable\<close>, \<^verbatim>\<open>data\<close> and
  \<^verbatim>\<open>end\<close> on the response and to \<^verbatim>\<open>error\<close> on the request, and sets no timeout.
\<close>

record exchange =
  now_started :: jsnum
  now_lookup :: "jsnum option"
  now_connect :: "jsnum option"
  now_secureConnect :: "jsnum option"
  now_readable :: "jsnum option"
  now_end :: jsnum
  server_timing :: "string option"

datatype outcome = ReqError string | ResEnd exchange | Stalled

datatype js_exn = TypeError | RangeError | InvalidInput | OtherError string

text \<open>
  What becomes of the promise of a probe: it is resolved, it is rejected, an exception
  is thrown that no handler of the program catches (inside the \<^verbatim>\<open>end\<close> callback, or
  by \<^verbatim>\<open>upload\<close> before it calls \<^verbatim>\<open>request\<close>), or it stays pending for ever. The
  options of a request follow; the field \<^verbatim>\<open>method\<close> of the source is \<open>http_method\<close>.
\<close>

datatype settled = Resolve response | Reject string | Uncaught js_exn | Pending

record options =
  hostname :: string
  path :: string
  http_method :: string
  headers :: "(string \<times> nat) list"

datatype log_line =
    ErrorLine string
  | LatencyLine jsnum
  | SpeedLine string jsnum
  | DownloadLine jsnum
  | UploadLine jsnum

text \<open>
  The state the program acts on: the outcome the network has for the i-th request, the
  requests issued so far (options and body, oldest first), the console, and the room
  the engine has for a string.
  Of the console lines, \<open>ErrorLine e\<close> is the text \<^verbatim>\<open>Error: e\<close>; the other lines carry
  the number that is printed (layout, colour and \<^verbatim>\<open>toFixed(2)\<close> are presentation).
\<close>

record world =
  net :: "nat \<Rightarrow> outcome"
  sent :: "(options \<times> string) list"
  console :: "log_line list"
  string_headroom :: nat

definition log :: "log_line \<Rightarrow> world \<Rightarrow> world" where
  "log l w = w\<lparr>console := console w @ [l]\<rparr>"

text \<open>
  The maximum length of a string depends on the engine. The program runs on Node.js,
  whose engine allows \<open>2^28 - 16\<close> characters in its 32-bit builds and more in the
  others; the language allows no string of more than \<open>2^53 - 1\<close>.
\<close>

definition max_string_length :: "world \<Rightarrow> nat" where
  "max_string_length w = min (2 ^ 53 - 1) (2 ^ 28 - 16 + string_headroom w)"

text \<open>
  The \<^verbatim>\<open>end\<close> callback of \<^verbatim>\<open>request\<close> resolves with
  \<^verbatim>\<open>parseFloat(res.headers['server-timing'].slice(22))\<close> as the last element;
  \<^verbatim>\<open>.slice\<close> on a missing header throws a TypeError. The \<^verbatim>\<open>error\<close> callback rejects.
  Where neither callback runs, nothing settles the promise.
\<close>

definition on_outcome :: "outcome \<Rightarrow> settled" where
  "on_outcome out =
     (case out of
        ReqError e \<Rightarrow> Reject e
      | Stalled \<Rightarrow> Pending
      | ResEnd x \<Rightarrow>
          (case server_timing x of
             None \<Rightarrow> Uncaught TypeError
           | Some h \<Rightarrow>
               Resolve \<lparr>started = now_started x,
                        dnsLookup = now_lookup x,
                        tcpHandshake = now_connect x,
                        sslHandshake = now_secureConnect x,
                        ttfb = now_readable x,
                        ended = now_end x,
                        serverTime = parseFloat (drop 22 h)\<rparr>))"

definition request :: "options \<Rightarrow> string \<Rightarrow> world \<Rightarrow> settled \<times> world" where
  "request opts data w =
     (on_outcome (net w (length (sent w))), w\<lparr>sent := sent w @ [(opts, data)]\<rparr>)"

definition download_options :: "nat \<Rightarrow> options" where
  "download_options bytes =
     \<lparr>hostname = ''speed.cloudflare.com'',
      path = ''/__down?bytes='' @ toString bytes,
      http_method = ''GET'',
      headers = []\<rparr>"

definition download :: "nat \<Rightarrow> world \<Rightarrow> settled \<times> world" where
  "download bytes w = request (download_options bytes) [] w"

definition upload_options :: "string \<Rightarrow> options" where
  "upload_options data =
     \<lparr>hostname = ''speed.cloudflare.com'',
      path = ''/__up'',
      http_method = ''POST'',
      headers = [(''Content-Length'', byteLength data)]\<rparr>"

text \<open>
  \<^verbatim>\<open>upload\<close> builds the body with \<^verbatim>\<open>'0'.repeat(bytes)\<close>, which throws a RangeError
  where the result would be longer than the engine allows; \<^verbatim>\<open>request\<close> is not
  called then. (A count within the limit is below \<open>2^53\<close>, where the Number is the
  integer itself.)
\<close>

definition upload :: "nat \<Rightarrow> world \<Rightarrow> settled \<times> world" where
  "upload bytes w =
     (if max_string_length w < bytes then (Uncaught RangeError, w)
      else let data = replicate bytes (CHR ''0'')
           in request (upload_options data) data w)"

section \<open>Statistics module\<close>

text \<open>
  \<^verbatim>\<open>require('./stats.js')\<close>: the module is not among the sources. The orchestrator
  takes it as a parameter: three functions of the sample list that return a Number or
  throw, and that leave their argument as it is (the specification has them pure).
\<close>

record stats =
  average :: "jsnum list \<Rightarrow> js_exn + jsnum"
  median :: "jsnum list \<Rightarrow> js_exn + jsnum"
  quartile :: "jsnum list \<Rightarrow> jsnum \<Rightarrow> js_exn + jsnum"

text \<open>
  Modelled from the spec: the functions of \<^verbatim>\<open>stats.js\<close>, which is missing from the
  sources. Section 4.1: \<open>average\<close> is the sum divided by the count; \<open>median\<close> sorts
  ascending and takes the middle element, or the mean of the two middle elements for
  an even count; \<open>quantile\<close> sorts ascending, computes the index \<open>i = q * (n - 1)\<close> and
  returns \<open>xs[i]\<close> when \<open>i\<close> is integral, otherwise interpolates linearly between
  \<open>xs[floor i]\<close> and \<open>xs[ceil i]\<close>, weighted by the fractional part. Called with an
  empty sequence each of them fails with \<open>InvalidInput\<close>; so does \<open>quantile\<close> here
  for an index outside the sequence, where \<open>q\<close> is outside \<open>[0,1]\<close>. Sorting is by
  insertion, with the arithmetic and the comparison of Numbers.
\<close>

fun insert_asc :: "jsnum \<Rightarrow> jsnum list \<Rightarrow> jsnum list" where
  "insert_asc x [] = [x]"
| "insert_asc x (y # ys) = (if jlt y x then y # insert_asc x ys else x # y # ys)"

definition sort_asc :: "jsnum list \<Rightarrow> jsnum list" where
  "sort_asc xs = foldr insert_asc xs []"

definition average_spec :: "jsnum list \<Rightarrow> js_exn + jsnum" where
  "average_spec xs =
     (if xs = [] then Inl InvalidInput
      else Inr (jdiv (foldl jadd (Num 0) xs) (num_of_nat (length xs))))"

definition median_spec :: "jsnum list \<Rightarrow> js_exn + jsnum" where
  "median_spec xs =
     (if xs = [] then Inl InvalidInput
      else let s = sort_asc xs; n = length s
           in if odd n then Inr (s ! (n div 2))
              else Inr (jdiv (jadd (s ! (n div 2 - 1)) (s ! (n div 2))) (Num 2)))"

definition quantile_spec :: "jsnum list \<Rightarrow> jsnum \<Rightarrow> js_exn + jsnum" where
  "quantile_spec xs q =
     (if xs = [] then Inl InvalidInput
      else let s = sort_asc xs;
               n = length s;
               i = jmul q (num_of_nat (n - 1));
               r = val i
           in if is_nan i \<or> is_inf i \<or> r < 0 \<or> of_nat (n - 1) < r then Inl InvalidInput
              else if r = of_int \<lfloor>r\<rfloor> then Inr (s ! nat \<lfloor>r\<rfloor>)
              else Inr (jadd (s ! nat \<lfloor>r\<rfloor>)
                         (jmul (jsub i (num_of_nat (nat \<lfloor>r\<rfloor>)))
                               (jsub (s ! nat \<lceil>r\<rceil>) (s ! nat \<lfloor>r\<rfloor>)))))"

definition stats_spec :: stats where
  "stats_spec = \<lparr>average = average_spec, median = median_spec, quartile = quantile_spec\<rparr>"

section \<open>Measurement orchestrator\<close>

text \<open>
  An asynchronous function of the program maps the world to its result and the world
  it leaves. Where it has no result, either an exception ended the run, or the function
  is waiting for a promise that stays pending: it never resumes, and the process ends
  without a word once nothing else is left to do. \<open>await_then m f\<close> is
  \<^verbatim>\<open>const a = await m; f(a)\<close>.
\<close>

datatype halt = Throws js_exn | Hangs

definition await_then ::
  "(world \<Rightarrow> (halt + 'a) \<times> world) \<Rightarrow> ('a \<Rightarrow> world \<Rightarrow> (halt + 'b) \<times> world)
   \<Rightarrow> world \<Rightarrow> (halt + 'b) \<times> world" where
  "await_then m f w = (case m w of (Inl x, w') \<Rightarrow> (Inl x, w') | (Inr a, w') \<Rightarrow> f a w')"

text \<open>
  The loops \<^verbatim>\<open>for (let i = 0; i < n; i += 1)\<close>: the first argument is the number of
  iterations left. A resolved probe pushes its measurement, a rejected one logs the
  error, an exception thrown by the probe ends the run, and at a probe whose promise
  stays pending the \<^verbatim>\<open>await\<close> of the loop never resumes.
\<close>

fun latency_loop :: "nat \<Rightarrow> jsnum list \<Rightarrow> world \<Rightarrow> (halt + jsnum list) \<times> world" where
  "latency_loop 0 measurements w = (Inr measurements, w)"
| "latency_loop (Suc k) measurements w =
     (case download 1000 w of
        (Resolve response, w') \<Rightarrow>
          latency_loop k
            (measurements @
              [jsub (jsub (toNumber (ttfb response)) (started response)) (serverTime response)])
            w'
      | (Reject error, w') \<Rightarrow> latency_loop k measurements (log (ErrorLine error) w')
      | (Uncaught x, w') \<Rightarrow> (Inl (Throws x), w')
      | (Pending, w') \<Rightarrow> (Inl Hangs, w'))"

definition measureLatency ::
  "stats \<Rightarrow> world \<Rightarrow> (halt + jsnum \<times> jsnum \<times> jsnum \<times> jsnum) \<times> world" where
  "measureLatency st w =
     (case latency_loop 20 [] w of
        (Inl x, w') \<Rightarrow> (Inl x, w')
      | (Inr measurements, w') \<Rightarrow>
          (let lo = Math_min measurements;
               hi = Math_max measurements
           in case average st measurements of
                Inl x \<Rightarrow> (Inl (Throws x), w')
              | Inr avg \<Rightarrow>
                  (case median st measurements of
                     Inl x \<Rightarrow> (Inl (Throws x), w')
                   | Inr med \<Rightarrow> (Inr (lo, hi, avg, med), w'))))"

fun download_loop ::
  "nat \<Rightarrow> nat \<Rightarrow> jsnum list \<Rightarrow> world \<Rightarrow> (halt + jsnum list) \<times> world" where
  "download_loop bytes 0 measurements w = (Inr measurements, w)"
| "download_loop bytes (Suc k) measurements w =
     (case download bytes w of
        (Resolve response, w') \<Rightarrow>
          (let transferTime = jsub (ended response) (toNumber (ttfb response))
           in download_loop bytes k
                (measurements @ [measureSpeed (num_of_nat bytes) transferTime]) w')
      | (Reject error, w') \<Rightarrow> download_loop bytes k measurements (log (ErrorLine error) w')
      | (Uncaught x, w') \<Rightarrow> (Inl (Throws x), w')
      | (Pending, w') \<Rightarrow> (Inl Hangs, w'))"

definition measureDownload :: "nat \<Rightarrow> nat \<Rightarrow> world \<Rightarrow> (halt + jsnum list) \<times> world" where
  "measureDownload bytes iterations w = download_loop bytes iterations [] w"

fun upload_loop ::
  "nat \<Rightarrow> nat \<Rightarrow> jsnum list \<Rightarrow> world \<Rightarrow> (halt + jsnum list) \<times> world" where
  "upload_loop bytes 0 measurements w = (Inr measurements, w)"
| "upload_loop bytes (Suc k) measurements w =
     (case upload bytes w of
        (Resolve response, w') \<Rightarrow>
          (let transferTime = serverTime response
           in upload_loop bytes k
                (measurements @ [measureSpeed (num_of_nat bytes) transferTime]) w')
      | (Reject error, w') \<Rightarrow> upload_loop bytes k measurements (log (ErrorLine error) w')
      | (Uncaught x, w') \<Rightarrow> (Inl (Throws x), w')
      | (Pending, w') \<Rightarrow> (Inl Hangs, w'))"

definition measureUpload :: "nat \<Rightarrow> nat \<Rightarrow> world \<Rightarrow> (halt + jsnum list) \<times> world" where
  "measureUpload bytes iterations w = upload_loop bytes iterations [] w"

definition logSpeedTestResult ::
  "stats \<Rightarrow> string \<Rightarrow> jsnum list \<Rightarrow> world \<Rightarrow> (halt + unit) \<times> world" where
  "logSpeedTestResult st size_text test w =
     (case median st test of
        Inl x \<Rightarrow> (Inl (Throws x), w)
      | Inr speed \<Rightarrow> (Inr (), log (SpeedLine size_text speed) w))"

text \<open>The literal \<^verbatim>\<open>0.9\<close>.\<close>

definition lit_0_9 :: jsnum where
  "lit_0_9 = rnd (9 / 10)"

text \<open>
  \<^verbatim>\<open>speedTest\<close>, from the latency measurement on, in its three parts: the latency
  stage, the download stage and the upload stage. (Before them the function fetches
  and prints the server location and the client address.)
\<close>

definition latencyStage :: "stats \<Rightarrow> world \<Rightarrow> (halt + unit) \<times> world" where
  "latencyStage st =
     await_then (measureLatency st) (\<lambda>ping w.
       (Inr (), log (LatencyLine (snd (snd (snd ping)))) w))"

definition downloadStage :: "stats \<Rightarrow> world \<Rightarrow> (halt + unit) \<times> world" where
  "downloadStage st =
     await_then (measureDownload 11000 10) (\<lambda>test1.
     await_then (logSpeedTestResult st ''10kB'' test1) (\<lambda>_.
     await_then (measureDownload 101000 10) (\<lambda>test2.
     await_then (logSpeedTestResult st ''100kB'' test2) (\<lambda>_.
     await_then (measureDownload 1001000 8) (\<lambda>test3.
     await_then (logSpeedTestResult st ''1MB'' test3) (\<lambda>_.
     await_then (measureDownload 10001000 5) (\<lambda>test4.
     await_then (logSpeedTestResult st ''10MB'' test4) (\<lambda>_.
     await_then (measureDownload 25001000 5) (\<lambda>test5.
     await_then (logSpeedTestResult st ''25MB'' test5) (\<lambda>_.
     await_then (measureDownload 100001000 5) (\<lambda>test6.
     await_then (logSpeedTestResult st ''100MB'' test6) (\<lambda>_ w.
       case quartile st (test1 @ test2 @ test3 @ test4 @ test5 @ test6) lit_0_9 of
         Inl x \<Rightarrow> (Inl (Throws x), w)
       | Inr speed \<Rightarrow> (Inr (), log (DownloadLine speed) w)))))))))))))"

definition uploadStage :: "stats \<Rightarrow> world \<Rightarrow> (halt + unit) \<times> world" where
  "uploadStage st =
     await_then (measureUpload 11000 10) (\<lambda>test7.
     await_then (measureUpload 101000 10) (\<lambda>test8.
     await_then (measureUpload 1001000 8) (\<lambda>test9 w.
       case quartile st (test7 @ test8 @ test9) lit_0_9 of
         Inl x \<Rightarrow> (Inl (Throws x), w)
       | Inr speed \<Rightarrow> (Inr (), log (UploadLine speed) w))))"

definition speedTest :: "stats \<Rightarrow> world \<Rightarrow> (halt + unit) \<times> world" where
  "speedTest st =
     await_then (latencyStage st) (\<lambda>_.
     await_then (downloadStage st) (\<lambda>_. uploadStage st))"

section \<open>Describing a run\<close>

text \<open>
  The outcomes of the \<open>n\<close> requests issued from request number \<open>base\<close> on; whether a
  request settles its promise (it is rejected, or its response ends and has the timing
  header); whether it fails with an error on the request; the responses of the
  resolved requests and the errors of the rejected ones, in order.
\<close>

definition probes :: "world \<Rightarrow> nat \<Rightarrow> nat \<Rightarrow> outcome list" where
  "probes w base n = map (net w) [base..<base + n]"

fun settles :: "outcome \<Rightarrow> bool" where
  "settles (ReqError e) = True"
| "settles (ResEnd x) = (server_timing x \<noteq> None)"
| "settles Stalled = False"

fun fails :: "outcome \<Rightarrow> bool" where
  "fails (ReqError e) = True"
| "fails (ResEnd x) = False"
| "fails Stalled = False"

fun resolved :: "outcome list \<Rightarrow> response list" where
  "resolved [] = []"
| "resolved (out # os) =
     (case on_outcome out of Resolve r \<Rightarrow> r # resolved os | _ \<Rightarrow> resolved os)"

fun rejected :: "outcome list \<Rightarrow> string list" where
  "rejected [] = []"
| "rejected (out # os) =
     (case on_outcome out of Reject e \<Rightarrow> e # rejected os | _ \<Rightarrow> rejected os)"

text \<open>
  The samples the specification asks of each stage, from the responses of the resolved
  probes: \<open>timeToFirstByte - started - serverProcessingTimeMs\<close> for the latency stage,
  \<open>throughputMbps(payloadSize, ended - timeToFirstByte)\<close> for a download and
  \<open>throughputMbps(payloadSize, serverProcessingTimeMs)\<close> for an upload.
\<close>

definition latency_samples :: "outcome list \<Rightarrow> jsnum list" where
  "latency_samples os =
     map (\<lambda>r. jsub (jsub (toNumber (ttfb r)) (started r)) (serverTime r)) (resolved os)"

definition download_samples :: "nat \<Rightarrow> outcome list \<Rightarrow> jsnum list" where
  "download_samples payloadSize os =
     map (\<lambda>r. throughputMbps_spec (num_of_nat payloadSize) (jsub (ended r) (toNumber (ttfb r))))
       (resolved os)"

definition upload_samples :: "nat \<Rightarrow> outcome list \<Rightarrow> jsnum list" where
  "upload_samples payloadSize os =
     map (\<lambda>r. throughputMbps_spec (num_of_nat payloadSize) (serverTime r)) (resolved os)"

text \<open>The request a download probe and an upload probe put on the wire.\<close>

definition download_request :: "nat \<Rightarrow> options \<times> string" where
  "download_request bytes = (download_options bytes, [])"

definition upload_request :: "nat \<Rightarrow> options \<times> string" where
  "upload_request bytes =
     (upload_options (replicate bytes (CHR ''0'')), replicate bytes (CHR ''0''))"

text \<open>
  The byte count a download target carries in its query parameter, as the server
  reads it.
\<close>

definition query_bytes :: "string \<Rightarrow> nat option" where
  "query_bytes p =
     (if take 14 p = ''/__down?bytes='' \<and> drop 14 p \<noteq> [] \<and> list_all is_digit (drop 14 p)
      then Some (digits_val (drop 14 p))
      else None)"

text \<open>
  The calls of \<^verbatim>\<open>measureDownload\<close> in \<^verbatim>\<open>speedTest\<close>, in the order of the source:
  payload size and iteration count.
\<close>

definition download_plan :: "(nat \<times> nat) list" where
  "download_plan =
     [(11000, 10), (101000, 10), (1001000, 8), (10001000, 5), (25001000, 5), (100001000, 5)]"

text \<open>
  A world with the connection-establishment timestamps (DNS lookup, TCP connect, TLS
  handshake) of every exchange erased.
\<close>

fun erase_conn :: "outcome \<Rightarrow> outcome" where
  "erase_conn (ReqError e) = ReqError e"
| "erase_conn (ResEnd x) =
     ResEnd (x\<lparr>now_lookup := None, now_connect := None, now_secureConnect := None\<rparr>)"
| "erase_conn Stalled = Stalled"

definition erase_world :: "world \<Rightarrow> world" where
  "erase_world w = w\<lparr>net := (\<lambda>i. erase_conn (net w i))\<rparr>"

text \<open>
  The same for a response, and what it means for an asynchronous function not to
  read these timestamps: run on the erased world it gives the same result and leaves
  the erased world.
\<close>

definition erase_response :: "response \<Rightarrow> response" where
  "erase_response r = r\<lparr>dnsLookup := None, tcpHandshake := None, sslHandshake := None\<rparr>"

definition conn_blind :: "(world \<Rightarrow> (halt + 'a) \<times> world) \<Rightarrow> bool" where
  "conn_blind f = (\<forall>w. f (erase_world w) = (fst (f w), erase_world (snd (f w))))"

section \<open>Example runs\<close>

text \<open>
  An exchange that takes 40 ms to the first byte and 50 ms more to the end, with the
  server reporting 25 ms of processing; the same with the first byte at 225 ms and at
  35 ms; one with a timing header that carries no number; and one with no timing
  header.
\<close>

definition x_ok :: exchange where
  "x_ok =
     \<lparr>now_started = Num 0, now_lookup = Some (Num 1), now_connect = Some (Num 2),
      now_secureConnect = Some (Num 3), now_readable = Some (Num 40), now_end = Num 90,
      server_timing = Some ''cfRequestDuration;dur=25''\<rparr>"

definition x_slow :: exchange where
  "x_slow = x_ok\<lparr>now_readable := Some (Num 225), now_end := Num 275\<rparr>"

definition x_fast :: exchange where
  "x_fast = x_ok\<lparr>now_readable := Some (Num 35), now_end := Num 85\<rparr>"

definition x_garbled :: exchange where
  "x_garbled = x_ok\<lparr>server_timing := Some ''cfRequestDuration;dur=n/a''\<rparr>"

definition x_bare :: exchange where
  "x_bare = x_ok\<lparr>server_timing := None\<rparr>"

definition x_reused :: exchange where
  "x_reused = x_ok\<lparr>now_lookup := None, now_connect := None, now_secureConnect := None\<rparr>"

definition world_of :: "(nat \<Rightarrow> outcome) \<Rightarrow> world" where
  "world_of f = \<lparr>net = f, sent = [], console = [], string_headroom = 0\<rparr>"

definition w_outlier :: world where
  "w_outlier =
     world_of (\<lambda>i. if i = 7 then ResEnd x_slow else if i = 12 then ResEnd x_fast else ResEnd x_ok)"

definition w_one_fails :: world where
  "w_one_fails = world_of (\<lambda>i. if i = 3 then ReqError ''Error: read ECONNRESET'' else ResEnd x_ok)"

definition w_stalls :: world where
  "w_stalls = world_of (\<lambda>i. if i = 4 then Stalled else ResEnd x_ok)"

definition w_all_fail :: world where
  "w_all_fail = world_of (\<lambda>i. ReqError ''Error: connect ECONNREFUSED'')"

definition w_garbled :: world where
  "w_garbled = world_of (\<lambda>i. if i = 0 then ResEnd x_garbled else ResEnd x_ok)"

definition w_bare :: world where
  "w_bare = world_of (\<lambda>i. if i = 0 then ResEnd x_bare else ResEnd x_ok)"

definition w_fresh :: world where
  "w_fresh = world_of (\<lambda>i. ResEnd x_ok)"

definition w_reused :: world where
  "w_reused = world_of (\<lambda>i. ResEnd x_reused)"

section \<open>Properties of the throughput calculator\<close>

lemma rnd_8000000: "rnd 8000000 = Num 8000000"
  by code_simp

lemma rnd_1: "rnd 1 = Num 1"
  by code_simp

lemma rnd_8: "rnd 8 = Num 8"
  by code_simp

text \<open>
  C1: for all bytes and durationMs the throughput calculator returns
  \<open>(bytes * 8) / (durationMs / 1000) / 1_000_000\<close>, and for 1,000,000 bytes in 1000 ms
  it returns exactly 8.
\<close>

theorem measureSpeed_is_throughputMbps:
  "measureSpeed bytes durationMs = throughputMbps_spec bytes durationMs
   \<and> measureSpeed (Num 1000000) (Num 1000) = Num 8"
proof
  show "measureSpeed bytes durationMs = throughputMbps_spec bytes durationMs"
    by (simp add: measureSpeed_def throughputMbps_spec_def)
next
  have bits: "jmul (Num 1000000) (Num 8) = Num 8000000"
    by (simp add: jmul_def rnd_8000000)
  have seconds: "jdiv (Num 1000) (Num 1000) = Num 1"
    by (simp add: jdiv_def rnd_1)
  have rate: "jdiv (Num 8000000) (Num 1) = Num 8000000"
    by (simp add: jdiv_def rnd_8000000)
  have mbps: "jdiv (Num 8000000) (Num 1000000) = Num 8"
    by (simp add: jdiv_def rnd_8)
  show "measureSpeed (Num 1000000) (Num 1000) = Num 8"
    by (simp add: measureSpeed_def bits seconds rate mbps)
qed

text \<open>
  Where no step rounds, the result is the value of the formula over the rationals.
\<close>

lemma measureSpeed_exact:
  assumes "b \<noteq> 0" "d \<noteq> 0"
    and "rnd (b * 8) = Num (b * 8)"
    and "rnd (d / 1000) = Num (d / 1000)"
    and "rnd (b * 8 / (d / 1000)) = Num (b * 8 / (d / 1000))"
    and "rnd (b * 8 / (d / 1000) / 1000000) = Num (b * 8 / (d / 1000) / 1000000)"
  shows "measureSpeed (Num b) (Num d) = Num (b * 8 / (d / 1000) / 1000000)"
proof -
  have bits: "jmul (Num b) (Num 8) = Num (b * 8)"
    using assms(1,3) by (simp add: jmul_def)
  have secs: "jdiv (Num d) (Num 1000) = Num (d / 1000)"
    using assms(2,4) by (simp add: jdiv_def)
  have rate: "jdiv (Num (b * 8)) (Num (d / 1000)) = Num (b * 8 / (d / 1000))"
    using assms(1,2,5) by (simp add: jdiv_def)
  have "jdiv (Num (b * 8 / (d / 1000))) (Num 1000000) = Num (b * 8 / (d / 1000) / 1000000)"
    using assms(1,2,6) by (simp add: jdiv_def)
  then show ?thesis
    by (simp only: measureSpeed_def bits secs rate)
qed

section \<open>Rounding of integers\<close>

lemma bitlen_pos:
  "0 < n \<Longrightarrow> 1 \<le> bitlen n \<and> 2 ^ nat (bitlen n - 1) \<le> n \<and> n < 2 ^ nat (bitlen n)"
proof (induction n rule: bitlen.induct)
  case (1 n)
  show ?case
  proof (cases "n = 1")
    case True
    have "bitlen 1 = 1"
      by (simp add: bitlen.simps)
    with True show ?thesis by simp
  next
    case False
    with "1.prems" have m: "0 < n div 2" by simp
    have n: "\<not> n \<le> 0" using "1.prems" by simp
    from "1.IH"[OF n m] have ih: "1 \<le> bitlen (n div 2)"
      "2 ^ nat (bitlen (n div 2) - 1) \<le> n div 2" "n div 2 < 2 ^ nat (bitlen (n div 2))"
      by simp_all
    have bl: "bitlen n = 1 + bitlen (n div 2)"
      using n by (subst bitlen.simps) simp
    have e1: "nat (bitlen n - 1) = nat (bitlen (n div 2))"
      using bl by simp
    have e2: "nat (bitlen n) = Suc (nat (bitlen (n div 2)))"
      using ih(1) bl by simp
    have e3: "nat (bitlen (n div 2)) = Suc (nat (bitlen (n div 2) - 1))"
      using ih(1) by simp
    have lo: "(2::int) ^ nat (bitlen (n div 2)) \<le> 2 * (n div 2)"
      using ih(2) by (subst e3) simp
    have hi: "2 * (n div 2) + 2 \<le> (2::int) ^ Suc (nat (bitlen (n div 2)))"
      using ih(3) by simp
    have "2 * (n div 2) \<le> n" by simp
    moreover have "n < 2 * (n div 2) + 2" by presburger
    ultimately have "2 ^ nat (bitlen n - 1) \<le> n" "n < 2 ^ nat (bitlen n)"
      using lo hi unfolding e1 e2 by linarith+
    then show ?thesis
      using ih(1) bl by simp
  qed
qed

lemma pow2_powi: "pow2 e = 2 powi e"
  by (simp add: pow2_def power_int_def inverse_eq_divide power_one_over)

lemma pow2_pos: "0 < pow2 e"
  by (simp add: pow2_powi)

lemma pow2_mono: "a \<le> b \<Longrightarrow> pow2 a \<le> pow2 b"
  by (simp add: pow2_powi power_int_increasing)

lemma flog2_lower:
  assumes "0 < x"
  shows "pow2 (flog2 x) \<le> x"
proof -
  obtain p q where pq: "quotient_of x = (p, q)"
    by (cases "quotient_of x")
  have q: "0 < q" using pq by (rule quotient_of_denom_pos)
  have x: "x = of_int p / of_int q" using pq by (rule quotient_of_div)
  have p: "0 < p"
    using assms q x by (simp add: zero_less_divide_iff)
  let ?e0 = "bitlen p - bitlen q"
  show ?thesis
  proof (cases "pow2 ?e0 \<le> x")
    case True
    then show ?thesis by (simp add: flog2_def pq)
  next
    case False
    then have fl: "flog2 x = ?e0 - 1" by (simp add: flog2_def pq)
    from bitlen_pos[OF p] have bp: "1 \<le> bitlen p" "2 ^ nat (bitlen p - 1) \<le> p" by simp_all
    from bitlen_pos[OF q] have bq: "1 \<le> bitlen q" "q < 2 ^ nat (bitlen q)" by simp_all
    have lo: "(2::rat) powi (bitlen p - 1) \<le> of_int p"
    proof -
      have "(of_int (2 ^ nat (bitlen p - 1)) :: rat) \<le> of_int p"
        using bp(2) by (simp only: of_int_le_iff)
      then show ?thesis using bp(1) by (simp add: power_int_def)
    qed
    have hi: "(of_int q :: rat) \<le> 2 powi (bitlen q)"
    proof -
      have "(of_int q :: rat) < of_int (2 ^ nat (bitlen q))"
        using bq(2) by (simp only: of_int_less_iff)
      then show ?thesis using bq(1) by (simp add: power_int_def)
    qed
    have "pow2 (?e0 - 1) = 2 powi (bitlen p - 1) / 2 powi (bitlen q)"
      by (simp add: pow2_powi power_int_diff)
    also have "\<dots> \<le> of_int p / 2 powi (bitlen q)"
      using lo by (simp add: divide_right_mono)
    also have "\<dots> \<le> of_int p / of_int q"
      using hi p q by (simp add: divide_left_mono)
    finally show ?thesis using fl x by simp
  qed
qed

lemma round_half_even_int: "round_half_even (of_int m) = m"
  by (simp add: round_half_even_def)

lemma round_pos_int:
  assumes "0 < k" "k < 2 ^ 53"
  shows "round_pos (of_int k) = of_int k"
proof -
  let ?x = "of_int k :: rat"
  have x: "0 < ?x" using assms by simp
  have "pow2 (flog2 ?x) \<le> ?x" using x by (rule flog2_lower)
  also have "?x < pow2 53"
  proof -
    have "?x < of_int (2 ^ 53)" using assms(2) by (simp only: of_int_less_iff)
    then show ?thesis by (simp add: pow2_def)
  qed
  finally have "\<not> 53 \<le> flog2 ?x"
    using pow2_mono[of 53 "flog2 ?x"] by auto
  then have q: "max (flog2 ?x - 52) (- 1074) \<le> 0" by simp
  define j where "j = nat (- max (flog2 ?x - 52) (- 1074))"
  have pw: "pow2 (max (flog2 ?x - 52) (- 1074)) = 1 / 2 ^ j"
    using q by (auto simp: pow2_def j_def)
  have "?x / (1 / 2 ^ j) = of_int (k * 2 ^ j)" by simp
  then have "round_half_even (?x / (1 / 2 ^ j)) = k * 2 ^ j"
    by (simp only: round_half_even_int)
  then show ?thesis
    by (simp add: round_pos_def Let_def pw)
qed

lemma flog2_small:
  assumes "0 < x" "x < 2 ^ 53"
  shows "\<not> 1024 \<le> flog2 x"
proof
  assume "1024 \<le> flog2 x"
  then have "pow2 53 \<le> pow2 (flog2 x)" by (intro pow2_mono) simp
  also have "\<dots> \<le> x" using assms(1) by (rule flog2_lower)
  finally show False using assms(2) by (simp add: pow2_def)
qed

lemma rnd_int:
  assumes "\<bar>k\<bar> < 2 ^ 53"
  shows "rnd (of_int k) = Num (of_int k)"
proof (cases "k = 0")
  case True
  then show ?thesis by (simp add: rnd_def)
next
  case False
  then have a: "0 < \<bar>k\<bar>" by simp
  have r: "round_pos \<bar>of_int k\<bar> = of_int \<bar>k\<bar>"
    using round_pos_int[OF a assms] by simp
  have "(of_int \<bar>k\<bar> :: rat) < of_int (2 ^ 53)"
    using assms by (simp only: of_int_less_iff)
  then have "(of_int \<bar>k\<bar> :: rat) < 2 ^ 53" by simp
  moreover have "(0::rat) < of_int \<bar>k\<bar>" using a by simp
  ultimately have big: "\<not> 1024 \<le> flog2 (of_int \<bar>k\<bar>)"
    by (intro flog2_small)
  show ?thesis
    using False big by (simp add: rnd_def r Let_def signed_inf_def signed_zero_def)
qed

lemma num_of_nat_exact: "n < 2 ^ 53 \<Longrightarrow> num_of_nat n = Num (of_nat n)"
  using rnd_int[of "int n"] by (simp add: num_of_nat_def)

section \<open>The throughput calculator at duration zero\<close>

lemma round_half_even_ge: "of_int m \<le> z \<Longrightarrow> m \<le> round_half_even z"
proof -
  assume "of_int m \<le> z"
  then have "m \<le> \<lfloor>z\<rfloor>" by (simp add: le_floor_iff)
  then show ?thesis by (simp add: round_half_even_def Let_def)
qed

lemma round_pos_ge_1:
  assumes "1 \<le> x"
  shows "1 \<le> round_pos x"
proof -
  define q where "q = max (flog2 x - 52) (- 1074)"
  have x: "0 < x" using assms by simp
  have rp: "round_pos x = of_int (round_half_even (x / pow2 q)) * pow2 q"
    by (simp add: round_pos_def q_def Let_def)
  show ?thesis
  proof (cases "q \<le> 0")
    case True
    define j where "j = nat (- q)"
    have pw: "pow2 q = 1 / 2 ^ j"
      using True by (auto simp: pow2_def j_def)
    have "(of_int (2 ^ j) :: rat) \<le> x / pow2 q"
      using assms by (simp add: pw mult_le_cancel_right1)
    then have "2 ^ j \<le> round_half_even (x / pow2 q)"
      by (rule round_half_even_ge)
    then have "(of_int (2 ^ j) :: rat) \<le> of_int (round_half_even (x / pow2 q))"
      by (simp only: of_int_le_iff)
    then have "(2 ^ j :: rat) * (1 / 2 ^ j) \<le> of_int (round_half_even (x / pow2 q)) * (1 / 2 ^ j)"
      by (intro mult_right_mono) simp_all
    then show ?thesis by (simp add: rp pw)
  next
    case False
    then have q52: "q = flog2 x - 52" by (simp add: q_def)
    have "pow2 q \<le> pow2 (flog2 x)" by (rule pow2_mono) (simp add: q52)
    also have "\<dots> \<le> x" using x by (rule flog2_lower)
    finally have "(of_int 1 :: rat) \<le> x / pow2 q"
      using pow2_pos[of q] by (simp add: le_divide_eq)
    then have "1 \<le> round_half_even (x / pow2 q)"
      by (rule round_half_even_ge)
    then have a: "(1 :: rat) \<le> of_int (round_half_even (x / pow2 q))"
      by simp
    have "pow2 0 \<le> pow2 q" by (rule pow2_mono) (use False in simp)
    then have b: "1 \<le> pow2 q" by (simp add: pow2_def)
    have "(1::rat) * 1 \<le> of_int (round_half_even (x / pow2 q)) * pow2 q"
      using a b by (intro mult_mono) simp_all
    then show ?thesis by (simp add: rp)
  qed
qed

lemma rnd_ge_1:
  assumes "1 \<le> x"
  shows "rnd x = PosInf \<or> (\<exists>y. rnd x = Num y \<and> 1 \<le> y)"
proof -
  have x: "\<bar>x\<bar> = x" "x \<noteq> 0" "\<not> x < 0" using assms by simp_all
  have y: "1 \<le> round_pos x" using assms by (rule round_pos_ge_1)
  then have "round_pos x \<noteq> 0" by simp
  then show ?thesis
    using y by (simp add: rnd_def x Let_def signed_inf_def)
qed

lemma jdiv_by_zero_pos:
  "b = PosInf \<or> (\<exists>y. b = Num y \<and> 1 \<le> y) \<Longrightarrow> jdiv b (Num 0) = PosInf"
  by (auto simp: jdiv_def signed_inf_def)

lemma measureSpeed_zero_nat:
  "measureSpeed (num_of_nat n) (Num 0) = (if n = 0 then NaN else PosInf)"
proof (cases "n = 0")
  case True
  have "num_of_nat 0 = Num 0" by (simp add: num_of_nat_def rnd_def)
  then show ?thesis
    using True by (simp add: measureSpeed_def jmul_def jdiv_def signed_zero_def)
next
  case False
  then have "(1::rat) \<le> of_nat n" by simp
  from rnd_ge_1[OF this] have b: "num_of_nat n = PosInf \<or> (\<exists>y. num_of_nat n = Num y \<and> 1 \<le> y)"
    by (simp add: num_of_nat_def)
  have bits: "jmul (num_of_nat n) (Num 8) = PosInf
      \<or> (\<exists>y. jmul (num_of_nat n) (Num 8) = Num y \<and> 1 \<le> y)"
    using b
  proof (elim disjE exE conjE)
    assume "num_of_nat n = PosInf"
    then show ?thesis by (simp add: jmul_def signed_inf_def)
  next
    fix y assume y: "num_of_nat n = Num y" "1 \<le> y"
    then have "1 \<le> y * 8" by simp
    from rnd_ge_1[OF this] show ?thesis
      using y by (simp add: jmul_def)
  qed
  have secs: "jdiv (Num 0) (Num 1000) = Num 0"
    by (simp add: jdiv_def signed_zero_def)
  have "jdiv PosInf (Num 1000000) = PosInf"
    by (simp add: jdiv_def signed_inf_def)
  then show ?thesis
    using False jdiv_by_zero_pos[OF bits] by (simp add: measureSpeed_def secs)
qed

lemma jdiv_zero_cases: "jdiv m (Num 0) = PosInf \<or> jdiv m (Num 0) = NegInf \<or> jdiv m (Num 0) = NaN"
  by (cases m) (simp_all add: jdiv_def signed_inf_def)

lemma jdiv_special:
  "jdiv PosInf (Num 1000000) = PosInf" "jdiv NegInf (Num 1000000) = NegInf"
  "jdiv NaN (Num 1000000) = NaN"
  by (simp_all add: jdiv_def signed_inf_def)

lemma measureSpeed_zero_any:
  "measureSpeed b (Num 0) \<in> {PosInf, NegInf, NaN}"
proof -
  have secs: "jdiv (Num 0) (Num 1000) = Num 0"
    by (simp add: jdiv_def signed_zero_def)
  have ms: "measureSpeed b (Num 0) = jdiv (jdiv (jmul b (Num 8)) (Num 0)) (Num 1000000)"
    by (simp only: measureSpeed_def secs)
  from jdiv_zero_cases[of "jmul b (Num 8)"] show ?thesis
    unfolding ms by (elim disjE) (simp_all only: jdiv_special insert_iff simp_thms)
qed

text \<open>
  C5 (as amended): called with a duration of 0 the throughput calculator raises no
  error. It divides: the result is \<open>Infinity\<close> for every positive byte count and \<open>NaN\<close>
  for a byte count of 0, and for any Number as byte count it is \<open>Infinity\<close>,
  \<open>-Infinity\<close> or \<open>NaN\<close>.
\<close>

theorem measureSpeed_zero_duration:
  "measureSpeed (num_of_nat n) (Num 0) = (if n = 0 then NaN else PosInf)
   \<and> measureSpeed b (Num 0) \<in> {PosInf, NegInf, NaN}"
  using measureSpeed_zero_nat[of n] measureSpeed_zero_any[of b] by (rule conjI)

text \<open>
  The claim as stated, that a duration of 0 fails with \<open>InvalidInput\<close>, does not hold:
  \<^verbatim>\<open>measureSpeed(1000000, 0)\<close> returns \<open>Infinity\<close>.
\<close>

theorem measureSpeed_zero_duration_counterexample:
  "measureSpeed (Num 1000000) (Num 0) = PosInf"
proof -
  have "num_of_nat 1000000 = Num 1000000"
    using num_of_nat_exact[of 1000000] by simp
  then show ?thesis
    using measureSpeed_zero_nat[of 1000000] by simp
qed

section \<open>The rendering of a byte count\<close>

text \<open>
  A Number from \<open>2^53\<close> on is not the rounding of any integer below \<open>2^53\<close>, so the
  shortest decimal that rounds to an integer below \<open>2^53\<close> is the integer itself, and
  \<^verbatim>\<open>`${bytes}`\<close> is its decimal digits.
\<close>

lemma round_pos_ge_2_53:
  assumes "2 ^ 53 \<le> x"
  shows "2 ^ 53 \<le> round_pos x"
proof -
  define q where "q = max (flog2 x - 52) (- 1074)"
  have x: "0 < x"
    using assms by (rule less_le_trans[rotated]) simp
  have rp: "round_pos x = of_int (round_half_even (x / pow2 q)) * pow2 q"
    by (simp add: round_pos_def q_def Let_def)
  show ?thesis
  proof (cases "q \<le> 0")
    case True
    define j where "j = nat (- q)"
    have pw: "pow2 q = 1 / 2 ^ j"
      using True by (auto simp: pow2_def j_def)
    have "(2 ^ 53 :: rat) * 2 ^ j \<le> x * 2 ^ j"
      using assms by (intro mult_right_mono) simp_all
    then have "(of_int (2 ^ 53 * 2 ^ j) :: rat) \<le> x / pow2 q"
      by (simp add: pw)
    then have "2 ^ 53 * 2 ^ j \<le> round_half_even (x / pow2 q)"
      by (rule round_half_even_ge)
    then have "(of_int (2 ^ 53 * 2 ^ j) :: rat) \<le> of_int (round_half_even (x / pow2 q))"
      by (simp only: of_int_le_iff)
    then have "(of_int (2 ^ 53 * 2 ^ j) :: rat) * (1 / 2 ^ j)
        \<le> of_int (round_half_even (x / pow2 q)) * (1 / 2 ^ j)"
      by (intro mult_right_mono) simp_all
    then show ?thesis by (simp add: rp pw)
  next
    case False
    then have q52: "q = flog2 x - 52" by (simp add: q_def)
    have "pow2 (flog2 x) = 2 ^ 52 * pow2 q"
      by (simp add: q52 pow2_powi power_int_diff)
    moreover have "pow2 (flog2 x) \<le> x" using x by (rule flog2_lower)
    ultimately have "(of_int (2 ^ 52) :: rat) \<le> x / pow2 q"
      using pow2_pos[of q] by (simp add: le_divide_eq)
    then have "2 ^ 52 \<le> round_half_even (x / pow2 q)"
      by (rule round_half_even_ge)
    then have "(of_int (2 ^ 52) :: rat) \<le> of_int (round_half_even (x / pow2 q))"
      by (simp only: of_int_le_iff)
    then have a: "(2 ^ 52 :: rat) \<le> of_int (round_half_even (x / pow2 q))"
      by simp
    have "pow2 1 \<le> pow2 q" by (rule pow2_mono) (use False in simp)
    then have b: "2 \<le> pow2 q" by (simp add: pow2_def)
    have "(2 ^ 52 :: rat) * 2 \<le> of_int (round_half_even (x / pow2 q)) * pow2 q"
      using a b by (intro mult_mono) simp_all
    then show ?thesis by (simp add: rp)
  qed
qed

lemma rnd_ge_2_53:
  assumes "2 ^ 53 \<le> x"
  shows "rnd x = PosInf \<or> (\<exists>y. rnd x = Num y \<and> 2 ^ 53 \<le> y)"
proof -
  have "(0::rat) < 2 ^ 53" by simp
  then have "0 < x" using assms by (rule less_le_trans)
  then have x: "\<bar>x\<bar> = x" "x \<noteq> 0" "\<not> x < 0" by simp_all
  have y: "2 ^ 53 \<le> round_pos x" using assms by (rule round_pos_ge_2_53)
  have "(0::rat) < 2 ^ 53" by simp
  then have "0 < round_pos x" using y by (rule less_le_trans)
  then have "round_pos x \<noteq> 0" by simp
  then show ?thesis
    using y by (simp add: rnd_def x Let_def signed_inf_def)
qed

lemma rnd_nat_safe: "n < 2 ^ 53 \<Longrightarrow> rnd (of_nat n) = Num (of_nat n)"
  using rnd_int[of "int n"] by simp

lemma rnd_nat_eq_safe:
  assumes "x < 2 ^ 53"
  shows "rnd (of_nat y) = Num (of_nat x) \<longleftrightarrow> y = x"
proof (cases "y < 2 ^ 53")
  case True
  then show ?thesis by (simp add: rnd_nat_safe)
next
  case False
  then have "(2::nat) ^ 53 \<le> y" by simp
  then have "(of_nat (2 ^ 53) :: rat) \<le> of_nat y" by (simp only: of_nat_le_iff)
  then have "(2 ^ 53 :: rat) \<le> of_nat y" by simp
  from rnd_ge_2_53[OF this] have "rnd (of_nat y) \<noteq> Num (of_nat x)"
  proof (elim disjE exE conjE)
    assume "rnd (of_nat y) = PosInf"
    then show ?thesis by simp
  next
    fix z :: rat assume z: "rnd (of_nat y) = Num z" "2 ^ 53 \<le> z"
    have "(of_nat x :: rat) < of_nat (2 ^ 53)" using assms by (simp only: of_nat_less_iff)
    then have "(of_nat x :: rat) < 2 ^ 53" by simp
    with z show ?thesis by simp
  qed
  moreover have "y \<noteq> x" using False assms by auto
  ultimately show ?thesis by simp
qed

lemma shortest_step:
  assumes "x < 2 ^ 53"
  shows "shortest x m k =
     (if (x div 10 ^ (m - k)) * 10 ^ (m - k) = x then x
      else if m \<le> k then x else shortest x m (Suc k))"
proof -
  let ?p = "(10::nat) ^ (m - k)"
  have "x mod ?p < ?p" by simp
  then have "x < (x div ?p) * ?p + ?p"
    by (metis add.commute div_mult_mod_eq mult.commute nat_add_left_cancel_less)
  then have hi: "(x div ?p) * ?p + ?p \<noteq> x" by simp
  show ?thesis
    by (subst shortest.simps) (simp add: Let_def rnd_nat_eq_safe[OF assms] hi)
qed

lemma shortest_safe:
  assumes "x < 2 ^ 53"
  shows "shortest x m k = x"
proof (induction "m - k" arbitrary: k)
  case 0
  then show ?case by (subst shortest_step[OF assms]) simp
next
  case (Suc d)
  then have "d = m - Suc k" "\<not> m \<le> k" by simp_all
  with Suc.hyps(1)[of "Suc k"] show ?case
    by (subst shortest_step[OF assms]) simp
qed

lemma decimal_length: "0 < k \<Longrightarrow> n < 10 ^ k \<Longrightarrow> length (decimal n) \<le> k"
proof (induction n arbitrary: k rule: decimal.induct)
  case (1 n)
  show ?case
  proof (cases "n < 10")
    case True
    then show ?thesis using "1.prems" by (subst decimal.simps) simp
  next
    case False
    have "k \<noteq> 1" using False "1.prems"(2) by auto
    with "1.prems"(1) obtain j where j: "k = Suc j" "0 < j" by (cases k) auto
    have "n div 10 < 10 ^ j"
      using "1.prems"(2) by (simp add: j less_mult_imp_div_less)
    from "1.IH"[OF False j(2) this] show ?thesis
      using False by (subst decimal.simps) (simp add: j)
  qed
qed

lemma decimal_0: "decimal 0 = ''0''"
  by code_simp

lemma toString_safe:
  assumes "n < 2 ^ 53"
  shows "toString n = decimal n"
proof (cases "n = 0")
  case True
  then show ?thesis
    by (simp add: toString_def num_of_nat_def rnd_def decimal_0)
next
  case False
  have "n < 10 ^ 16" using assms by simp
  then have "length (decimal n) \<le> 16" by (intro decimal_length) simp_all
  then show ?thesis
    using False by (simp add: toString_def num_of_nat_exact[OF assms] shortest_safe[OF assms] Let_def)
qed

lemma digit_chars:
  "char_of (48::nat) = CHR ''0''" "char_of (49::nat) = CHR ''1''" "char_of (50::nat) = CHR ''2''"
  "char_of (51::nat) = CHR ''3''" "char_of (52::nat) = CHR ''4''" "char_of (53::nat) = CHR ''5''"
  "char_of (54::nat) = CHR ''6''" "char_of (55::nat) = CHR ''7''" "char_of (56::nat) = CHR ''8''"
  "char_of (57::nat) = CHR ''9''"
  by code_simp+

lemma toString_1000: "toString 1000 = ''1000''"
proof -
  have "decimal 1000 = ''1000''"
    by (simp add: decimal.simps digit_chars)
  then show ?thesis by (simp add: toString_safe)
qed

section \<open>Runs of the probe loops\<close>

lemma probes_0: "probes w b 0 = []"
  by (simp add: probes_def)

lemma probes_Suc: "probes w b (Suc n) = net w b # probes w (Suc b) n"
proof -
  have "[b..<b + Suc n] = b # [Suc b..<Suc b + n]"
    by (simp add: upt_conv_Cons del: upt_Suc)
  then show ?thesis
    by (simp add: probes_def del: upt_Suc)
qed

lemma probes_add: "probes w b (m + n) = probes w b m @ probes w (b + m) n"
proof -
  have "[b..<b + (m + n)] = [b..<b + m] @ [b + m..<b + m + n]"
    by (metis add.assoc le_add1 upt_add_eq_append)
  then show ?thesis
    by (simp add: probes_def)
qed

lemma probes_cong:
  "probes (w\<lparr>sent := s\<rparr>) b n = probes w b n"
  "probes (w\<lparr>console := c\<rparr>) b n = probes w b n"
  "probes (log l w) b n = probes w b n"
  by (simp_all add: probes_def log_def)

lemma max_string_length_cong:
  "max_string_length (w\<lparr>sent := s\<rparr>) = max_string_length w"
  "max_string_length (w\<lparr>console := c\<rparr>) = max_string_length w"
  "max_string_length (log l w) = max_string_length w"
  by (simp_all add: max_string_length_def log_def)

lemma max_string_length_ge: "n \<le> 268435440 \<Longrightarrow> n \<le> max_string_length w"
  by (simp add: max_string_length_def)

lemma max_string_length_less: "max_string_length w < 2 ^ 53"
  by (simp add: max_string_length_def)

lemma upload_fits:
  "bytes \<le> max_string_length w \<Longrightarrow>
   upload bytes w =
     (on_outcome (net w (length (sent w))), w\<lparr>sent := sent w @ [upload_request bytes]\<rparr>)"
  by (simp add: upload_def request_def upload_request_def Let_def)

lemma upload_too_long:
  "max_string_length w < bytes \<Longrightarrow> upload bytes w = (Uncaught RangeError, w)"
  by (simp add: upload_def)

lemma log_simps:
  "net (log l w) = net w" "sent (log l w) = sent w" "console (log l w) = console w @ [l]"
  by (simp_all add: log_def)

lemma measureSpeed_spec: "measureSpeed b d = throughputMbps_spec b d"
  by (simp add: measureSpeed_def throughputMbps_spec_def)

lemma settles_cases:
  "settles out \<Longrightarrow> (\<exists>e. on_outcome out = Reject e) \<or> (\<exists>r. on_outcome out = Resolve r)"
  by (cases out) (auto simp: on_outcome_def split: option.splits)

lemma resolved_append: "resolved (xs @ ys) = resolved xs @ resolved ys"
  by (induction xs) (auto split: settled.splits)

lemma rejected_append: "rejected (xs @ ys) = rejected xs @ rejected ys"
  by (induction xs) (auto split: settled.splits)

lemma download_loop_run:
  "list_all settles (probes w (length (sent w)) n) \<Longrightarrow>
   download_loop bytes n ms w =
     (Inr (ms @ download_samples bytes (probes w (length (sent w)) n)),
      w\<lparr>sent := sent w @ replicate n (download_request bytes),
        console := console w @ map ErrorLine (rejected (probes w (length (sent w)) n))\<rparr>)"
proof (induction n arbitrary: ms w)
  case 0
  then show ?case by (simp add: probes_0 download_samples_def)
next
  case (Suc n)
  let ?b = "length (sent w)"
  from Suc.prems have s0: "settles (net w ?b)" and rest: "list_all settles (probes w (Suc ?b) n)"
    by (simp_all add: probes_Suc)
  from settles_cases[OF s0] show ?case
  proof (elim disjE exE)
    fix e assume rej: "on_outcome (net w ?b) = Reject e"
    let ?w' = "log (ErrorLine e) (w\<lparr>sent := sent w @ [download_request bytes]\<rparr>)"
    have ih: "list_all settles (probes ?w' (length (sent ?w')) n)"
      using rest by (simp add: log_simps probes_cong)
    show ?thesis
      using Suc.IH[OF ih, of ms] rej
      by (simp add: probes_Suc download_def request_def log_def probes_cong
          replicate_app_Cons_same download_samples_def download_request_def)
  next
    fix r assume res: "on_outcome (net w ?b) = Resolve r"
    let ?w' = "w\<lparr>sent := sent w @ [download_request bytes]\<rparr>"
    have ih: "list_all settles (probes ?w' (length (sent ?w')) n)"
      using rest by (simp add: probes_cong)
    show ?thesis
      using Suc.IH[OF ih, of "ms @ download_samples bytes [net w ?b]"] res
      by (simp add: probes_Suc download_def request_def probes_cong replicate_app_Cons_same
          download_samples_def measureSpeed_spec download_request_def)
  qed
qed

lemma upload_loop_run:
  "list_all settles (probes w (length (sent w)) n) \<Longrightarrow> bytes \<le> max_string_length w \<Longrightarrow>
   upload_loop bytes n ms w =
     (Inr (ms @ upload_samples bytes (probes w (length (sent w)) n)),
      w\<lparr>sent := sent w @ replicate n (upload_request bytes),
        console := console w @ map ErrorLine (rejected (probes w (length (sent w)) n))\<rparr>)"
proof (induction n arbitrary: ms w)
  case 0
  then show ?case by (simp add: probes_0 upload_samples_def)
next
  case (Suc n)
  let ?b = "length (sent w)"
  note up = upload_fits[OF Suc.prems(2)]
  from Suc.prems(1) have s0: "settles (net w ?b)"
    and rest: "list_all settles (probes w (Suc ?b) n)"
    by (simp_all add: probes_Suc)
  from settles_cases[OF s0] show ?case
  proof (elim disjE exE)
    fix e assume rej: "on_outcome (net w ?b) = Reject e"
    let ?w' = "log (ErrorLine e) (w\<lparr>sent := sent w @ [upload_request bytes]\<rparr>)"
    have ih: "list_all settles (probes ?w' (length (sent ?w')) n)"
      using rest by (simp add: log_simps probes_cong)
    have fit: "bytes \<le> max_string_length ?w'"
      using Suc.prems(2) by (simp add: max_string_length_cong)
    show ?thesis
      using Suc.IH[OF ih fit, of ms] rej
      by (simp add: probes_Suc up log_def probes_cong replicate_app_Cons_same upload_samples_def)
  next
    fix r assume res: "on_outcome (net w ?b) = Resolve r"
    let ?w' = "w\<lparr>sent := sent w @ [upload_request bytes]\<rparr>"
    have ih: "list_all settles (probes ?w' (length (sent ?w')) n)"
      using rest by (simp add: probes_cong)
    have fit: "bytes \<le> max_string_length ?w'"
      using Suc.prems(2) by (simp add: max_string_length_cong)
    show ?thesis
      using Suc.IH[OF ih fit, of "ms @ upload_samples bytes [net w ?b]"] res
      by (simp add: probes_Suc up probes_cong replicate_app_Cons_same upload_samples_def
          measureSpeed_spec)
  qed
qed

lemma latency_loop_run:
  "list_all settles (probes w (length (sent w)) n) \<Longrightarrow>
   latency_loop n ms w =
     (Inr (ms @ latency_samples (probes w (length (sent w)) n)),
      w\<lparr>sent := sent w @ replicate n (download_request 1000),
        console := console w @ map ErrorLine (rejected (probes w (length (sent w)) n))\<rparr>)"
proof (induction n arbitrary: ms w)
  case 0
  then show ?case by (simp add: probes_0 latency_samples_def)
next
  case (Suc n)
  let ?b = "length (sent w)"
  from Suc.prems have s0: "settles (net w ?b)" and rest: "list_all settles (probes w (Suc ?b) n)"
    by (simp_all add: probes_Suc)
  from settles_cases[OF s0] show ?case
  proof (elim disjE exE)
    fix e assume rej: "on_outcome (net w ?b) = Reject e"
    let ?w' = "log (ErrorLine e) (w\<lparr>sent := sent w @ [download_request 1000]\<rparr>)"
    have ih: "list_all settles (probes ?w' (length (sent ?w')) n)"
      using rest by (simp add: log_simps probes_cong)
    show ?thesis
      using Suc.IH[OF ih, of ms] rej
      by (simp add: probes_Suc download_def request_def log_def probes_cong
          replicate_app_Cons_same latency_samples_def download_request_def)
  next
    fix r assume res: "on_outcome (net w ?b) = Resolve r"
    let ?w' = "w\<lparr>sent := sent w @ [download_request 1000]\<rparr>"
    have ih: "list_all settles (probes ?w' (length (sent ?w')) n)"
      using rest by (simp add: probes_cong)
    show ?thesis
      using Suc.IH[OF ih, of "ms @ latency_samples [net w ?b]"] res
      by (simp add: probes_Suc download_def request_def probes_cong replicate_app_Cons_same
          latency_samples_def download_request_def)
  qed
qed

section \<open>The latency stage\<close>

lemma measureLatency_run:
  assumes "list_all settles (probes w (length (sent w)) 20)"
  shows "measureLatency st w =
     (let ms = latency_samples (probes w (length (sent w)) 20)
      in case average st ms of
           Inl x \<Rightarrow> Inl (Throws x)
         | Inr avg \<Rightarrow>
             (case median st ms of
                Inl x \<Rightarrow> Inl (Throws x)
              | Inr med \<Rightarrow> Inr (Math_min ms, Math_max ms, avg, med)),
      w\<lparr>sent := sent w @ replicate 20 (download_request 1000),
        console := console w @ map ErrorLine (rejected (probes w (length (sent w)) 20))\<rparr>)"
  using latency_loop_run[OF assms, of "[]"]
  by (simp add: measureLatency_def Let_def split: sum.splits)

lemma download_request_1000:
  "download_request 1000 =
     (\<lparr>hostname = ''speed.cloudflare.com'', path = ''/__down?bytes=1000'',
       http_method = ''GET'', headers = []\<rparr>, [])"
  by (simp add: download_request_def download_options_def toString_1000)

text \<open>
  \<^verbatim>\<open>Math.min\<close> and \<^verbatim>\<open>Math.max\<close> of ordinary numbers are the least and the greatest
  of them.
\<close>

lemma min_loop_Num: "min_loop (Num m) (map Num rs) = Num (fold min rs m)"
proof (induction rs arbitrary: m)
  case Nil
  then show ?case by simp
next
  case (Cons r rs)
  show ?case
  proof (cases "r < m")
    case True
    then show ?thesis by (simp add: jlt_def Cons.IH min_def)
  next
    case False
    then show ?thesis by (simp add: jlt_def Cons.IH min_def)
  qed
qed

lemma Math_min_Num: "rs \<noteq> [] \<Longrightarrow> Math_min (map Num rs) = Num (Min (set rs))"
proof (cases rs)
  case Nil
  assume "rs \<noteq> []"
  with Nil show ?thesis by simp
next
  case (Cons r rest)
  have "Math_min (map Num (r # rest)) = min_loop (Num r) (map Num rest)"
    by (simp add: Math_min_def jlt_def)
  also have "\<dots> = Num (fold min rest r)" by (rule min_loop_Num)
  also have "fold min rest r = Min (set (r # rest))" by (simp only: Min.set_eq_fold)
  finally show ?thesis using Cons by simp
qed

lemma max_loop_Num: "max_loop (Num m) (map Num rs) = Num (fold max rs m)"
proof (induction rs arbitrary: m)
  case Nil
  then show ?case by simp
next
  case (Cons r rs)
  show ?case
  proof (cases "m < r")
    case True
    then show ?thesis by (simp add: jlt_def Cons.IH max_def)
  next
    case False
    then show ?thesis by (simp add: jlt_def Cons.IH max_def)
  qed
qed

lemma Math_max_Num: "rs \<noteq> [] \<Longrightarrow> Math_max (map Num rs) = Num (Max (set rs))"
proof (cases rs)
  case Nil
  assume "rs \<noteq> []"
  with Nil show ?thesis by simp
next
  case (Cons r rest)
  have "Math_max (map Num (r # rest)) = max_loop (Num r) (map Num rest)"
    by (simp add: Math_max_def jlt_def)
  also have "\<dots> = Num (fold max rest r)" by (rule max_loop_Num)
  also have "fold max rest r = Max (set (r # rest))" by (simp only: Max.set_eq_fold)
  finally show ?thesis using Cons by simp
qed

text \<open>A \<open>NaN\<close> among the arguments makes both \<open>NaN\<close>.\<close>

lemma is_nan_iff: "is_nan x \<longleftrightarrow> x = NaN"
  by (cases x) simp_all

lemma min_loop_NaN: "NaN \<in> set xs \<Longrightarrow> min_loop lowest xs = NaN"
  by (induction xs arbitrary: lowest) (auto simp: is_nan_iff)

lemma max_loop_NaN: "NaN \<in> set xs \<Longrightarrow> max_loop highest xs = NaN"
  by (induction xs arbitrary: highest) (auto simp: is_nan_iff)

text \<open>
  C2: the latency stage runs exactly 20 download probes of 1000 bytes each; for each
  resolved probe it computes \<open>timeToFirstByte - started - serverProcessingTimeMs\<close>,
  and it reports the tuple (min, max, average, median) of these samples. Stated for a
  stage in which each of the 20 requests settles and the two statistics functions
  return. The first two components are \<^verbatim>\<open>Math.min\<close> and \<^verbatim>\<open>Math.max\<close> of the
  samples: the least and the greatest of samples that are ordinary numbers, \<open>NaN\<close>
  if a sample is \<open>NaN\<close>, and \<open>Infinity\<close> and \<open>-Infinity\<close> if there is no sample.
\<close>

theorem measureLatency_report:
  assumes "list_all settles (probes w (length (sent w)) 20)"
    and "average st (latency_samples (probes w (length (sent w)) 20)) = Inr avg"
    and "median st (latency_samples (probes w (length (sent w)) 20)) = Inr med"
  shows "measureLatency st w =
     (Inr (Math_min (latency_samples (probes w (length (sent w)) 20)),
           Math_max (latency_samples (probes w (length (sent w)) 20)), avg, med),
      w\<lparr>sent := sent w @ replicate 20 (download_request 1000),
        console := console w @ map ErrorLine (rejected (probes w (length (sent w)) 20))\<rparr>)
    \<and> download_request 1000 =
        (\<lparr>hostname = ''speed.cloudflare.com'', path = ''/__down?bytes=1000'',
          http_method = ''GET'', headers = []\<rparr>, [])
    \<and> latency_samples (probes w (length (sent w)) 20) =
        map (\<lambda>r. jsub (jsub (toNumber (ttfb r)) (started r)) (serverTime r))
          (resolved (probes w (length (sent w)) 20))
    \<and> Math_min (map Num (r # rs)) = Num (Min (set (r # rs)))
    \<and> Math_max (map Num (r # rs)) = Num (Max (set (r # rs)))
    \<and> Math_min (xs @ NaN # ys) = NaN
    \<and> Math_max (xs @ NaN # ys) = NaN
    \<and> Math_min [] = PosInf
    \<and> Math_max [] = NegInf"
proof (intro conjI)
  show "measureLatency st w =
     (Inr (Math_min (latency_samples (probes w (length (sent w)) 20)),
           Math_max (latency_samples (probes w (length (sent w)) 20)), avg, med),
      w\<lparr>sent := sent w @ replicate 20 (download_request 1000),
        console := console w @ map ErrorLine (rejected (probes w (length (sent w)) 20))\<rparr>)"
    using measureLatency_run[OF assms(1), of st] assms(2,3)
    by (simp add: Let_def)
  show "download_request 1000 =
        (\<lparr>hostname = ''speed.cloudflare.com'', path = ''/__down?bytes=1000'',
          http_method = ''GET'', headers = []\<rparr>, [])"
    by (rule download_request_1000)
  show "latency_samples (probes w (length (sent w)) 20) =
        map (\<lambda>r. jsub (jsub (toNumber (ttfb r)) (started r)) (serverTime r))
          (resolved (probes w (length (sent w)) 20))"
    by (simp add: latency_samples_def)
  show "Math_min (map Num (r # rs)) = Num (Min (set (r # rs)))"
    by (rule Math_min_Num) simp
  show "Math_max (map Num (r # rs)) = Num (Max (set (r # rs)))"
    by (rule Math_max_Num) simp
  show "Math_min (xs @ NaN # ys) = NaN"
    unfolding Math_min_def by (rule min_loop_NaN) simp
  show "Math_max (xs @ NaN # ys) = NaN"
    unfolding Math_max_def by (rule max_loop_NaN) simp
  show "Math_min [] = PosInf"
    by (simp add: Math_min_def)
  show "Math_max [] = NegInf"
    by (simp add: Math_max_def)
qed

section \<open>Blocks of the download and upload stages\<close>

lemma download_block:
  assumes "list_all settles (probes w (length (sent w)) n)"
    and "median st (download_samples bytes (probes w (length (sent w)) n)) = Inr m"
  shows "await_then (measureDownload bytes n)
           (\<lambda>test. await_then (logSpeedTestResult st label test) (\<lambda>_. k test)) w =
         k (download_samples bytes (probes w (length (sent w)) n))
           (w\<lparr>sent := sent w @ replicate n (download_request bytes),
              console := console w @ map ErrorLine (rejected (probes w (length (sent w)) n))
                           @ [SpeedLine label m]\<rparr>)"
  using download_loop_run[OF assms(1), of bytes "[]"] assms(2)
  by (simp add: await_then_def measureDownload_def logSpeedTestResult_def log_def)

lemma upload_block:
  assumes "list_all settles (probes w (length (sent w)) n)"
    and "bytes \<le> max_string_length w"
  shows "await_then (measureUpload bytes n) k w =
         k (upload_samples bytes (probes w (length (sent w)) n))
           (w\<lparr>sent := sent w @ replicate n (upload_request bytes),
              console := console w @ map ErrorLine (rejected (probes w (length (sent w)) n))\<rparr>)"
  using upload_loop_run[OF assms, of "[]"]
  by (simp add: await_then_def measureUpload_def)

lemma list_all_probes_add:
  "list_all settles (probes w b (m + n)) =
     (list_all settles (probes w b m) \<and> list_all settles (probes w (b + m) n))"
  by (simp add: probes_add)

lemma rejected_probes_add:
  "rejected (probes w b (m + n)) = rejected (probes w b m) @ rejected (probes w (b + m) n)"
  by (simp add: probes_add rejected_append)

text \<open>
  C4: every upload probe's throughput is \<open>throughputMbps(payloadSize,
  serverProcessingTimeMs)\<close>, computed from the duration the server reports and not
  from the local timestamps, and the headline upload figure is the 90th percentile
  (\<^verbatim>\<open>stats.quartile(..., 0.9)\<close>) over the concatenation of all upload samples of
  the stage. Stated for a stage in which each of the 28 requests settles and the
  statistics function returns.
\<close>

theorem uploadStage_report:
  assumes settle: "list_all settles (probes w (length (sent w)) 28)"
    and t7: "test7 = upload_samples 11000 (probes w (length (sent w)) 10)"
    and t8: "test8 = upload_samples 101000 (probes w (length (sent w) + 10) 10)"
    and t9: "test9 = upload_samples 1001000 (probes w (length (sent w) + 20) 8)"
    and headline: "quartile st (test7 @ test8 @ test9) lit_0_9 = Inr speed"
  shows "uploadStage st w =
     (Inr (),
      w\<lparr>sent := sent w @ replicate 10 (upload_request 11000)
                @ replicate 10 (upload_request 101000)
                @ replicate 8 (upload_request 1001000),
        console := console w @ map ErrorLine (rejected (probes w (length (sent w)) 28))
                     @ [UploadLine speed]\<rparr>)
    \<and> (\<forall>payloadSize os. upload_samples payloadSize os =
          map (\<lambda>r. throughputMbps_spec (num_of_nat payloadSize) (serverTime r)) (resolved os))"
proof
  let ?b = "length (sent w)"
  define w1 where "w1 = w\<lparr>sent := sent w @ replicate 10 (upload_request 11000),
      console := console w @ map ErrorLine (rejected (probes w ?b 10))\<rparr>"
  define w2 where "w2 = w1\<lparr>sent := sent w1 @ replicate 10 (upload_request 101000),
      console := console w1 @ map ErrorLine (rejected (probes w1 (length (sent w1)) 10))\<rparr>"
  define w3 where "w3 = w2\<lparr>sent := sent w2 @ replicate 8 (upload_request 1001000),
      console := console w2 @ map ErrorLine (rejected (probes w2 (length (sent w2)) 8))\<rparr>"
  have split: "list_all settles (probes w ?b 10)" "list_all settles (probes w (?b + 10) 10)"
    "list_all settles (probes w (?b + 20) 8)"
    using settle list_all_probes_add[of w ?b 10 18] list_all_probes_add[of w "?b + 10" 10 8]
    by (simp_all add: add.assoc)
  have l1: "length (sent w1) = ?b + 10" and p1: "\<And>c n. probes w1 c n = probes w c n"
    by (simp_all add: w1_def probes_def)
  have l2: "length (sent w2) = ?b + 20" and p2: "\<And>c n. probes w2 c n = probes w c n"
    by (simp_all add: w2_def l1 probes_def w1_def)
  have s1: "list_all settles (probes w (length (sent w)) 10)" using split(1) .
  have s2: "list_all settles (probes w1 (length (sent w1)) 10)" using split(2) by (simp add: l1 p1)
  have s3: "list_all settles (probes w2 (length (sent w2)) 8)" using split(3) by (simp add: l2 p2)
  have fit: "11000 \<le> max_string_length w" "101000 \<le> max_string_length w1"
    "1001000 \<le> max_string_length w2"
    by (simp_all add: max_string_length_ge)
  have r: "rejected (probes w ?b 28) =
      rejected (probes w ?b 10) @ rejected (probes w (?b + 10) 10) @ rejected (probes w (?b + 20) 8)"
    using rejected_probes_add[of w ?b 10 18] rejected_probes_add[of w "?b + 10" 10 8]
    by (simp add: add.assoc)
  have "uploadStage st w =
      (case quartile st (test7 @ test8 @ test9) lit_0_9 of
         Inl x \<Rightarrow> (Inl (Throws x), w3)
       | Inr speed \<Rightarrow> (Inr (), log (UploadLine speed) w3))"
    unfolding uploadStage_def upload_block[OF s1 fit(1)]
    unfolding w1_def[symmetric] upload_block[OF s2 fit(2)]
    unfolding w2_def[symmetric] upload_block[OF s3 fit(3)]
    unfolding w3_def[symmetric]
    by (simp add: t7 t8 t9 l1 l2 p1 p2)
  then show "uploadStage st w =
     (Inr (),
      w\<lparr>sent := sent w @ replicate 10 (upload_request 11000)
                @ replicate 10 (upload_request 101000)
                @ replicate 8 (upload_request 1001000),
        console := console w @ map ErrorLine (rejected (probes w (length (sent w)) 28))
                     @ [UploadLine speed]\<rparr>)"
    by (simp add: headline log_def w3_def w2_def w1_def r l1 l2 p1 p2 probes_cong)
  show "\<forall>payloadSize os. upload_samples payloadSize os =
          map (\<lambda>r. throughputMbps_spec (num_of_nat payloadSize) (serverTime r)) (resolved os)"
    by (simp add: upload_samples_def)
qed

text \<open>
  C3: the download stage goes through the (payloadSize, iterationCount) pairs in
  ascending order of payload size, computes \<open>throughputMbps(payloadSize,
  ended - timeToFirstByte)\<close> for each resolved probe, prints the median per size,
  and prints as the headline download figure the 90th percentile over the
  concatenation of all per-size sample lists. Stated for a stage in which each of the
  43 requests settles and the statistics functions return.
\<close>

theorem downloadStage_report:
  assumes settle: "list_all settles (probes w (length (sent w)) 43)"
    and t1: "test1 = download_samples 11000 (probes w (length (sent w)) 10)"
    and t2: "test2 = download_samples 101000 (probes w (length (sent w) + 10) 10)"
    and t3: "test3 = download_samples 1001000 (probes w (length (sent w) + 20) 8)"
    and t4: "test4 = download_samples 10001000 (probes w (length (sent w) + 28) 5)"
    and t5: "test5 = download_samples 25001000 (probes w (length (sent w) + 33) 5)"
    and t6: "test6 = download_samples 100001000 (probes w (length (sent w) + 38) 5)"
    and m1: "median st test1 = Inr m1"
    and m2: "median st test2 = Inr m2"
    and m3: "median st test3 = Inr m3"
    and m4: "median st test4 = Inr m4"
    and m5: "median st test5 = Inr m5"
    and m6: "median st test6 = Inr m6"
    and headline:
      "quartile st (test1 @ test2 @ test3 @ test4 @ test5 @ test6) lit_0_9 = Inr speed"
  shows "downloadStage st w =
     (Inr (),
      w\<lparr>sent := sent w
                @ concat (map (\<lambda>(bytes, n). replicate n (download_request bytes)) download_plan),
        console := console w
          @ map ErrorLine (rejected (probes w (length (sent w)) 10))
          @ [SpeedLine ''10kB'' m1]
          @ map ErrorLine (rejected (probes w (length (sent w) + 10) 10))
          @ [SpeedLine ''100kB'' m2]
          @ map ErrorLine (rejected (probes w (length (sent w) + 20) 8))
          @ [SpeedLine ''1MB'' m3]
          @ map ErrorLine (rejected (probes w (length (sent w) + 28) 5))
          @ [SpeedLine ''10MB'' m4]
          @ map ErrorLine (rejected (probes w (length (sent w) + 33) 5))
          @ [SpeedLine ''25MB'' m5]
          @ map ErrorLine (rejected (probes w (length (sent w) + 38) 5))
          @ [SpeedLine ''100MB'' m6]
          @ [DownloadLine speed]\<rparr>)
    \<and> sorted_wrt (<) (map fst download_plan)
    \<and> (\<forall>payloadSize os. download_samples payloadSize os =
          map (\<lambda>r. throughputMbps_spec (num_of_nat payloadSize)
                      (jsub (ended r) (toNumber (ttfb r))))
            (resolved os))"
proof (intro conjI)
  let ?b = "length (sent w)"
  define w1 where "w1 = w\<lparr>sent := sent w @ replicate 10 (download_request 11000),
      console := console w @ map ErrorLine (rejected (probes w ?b 10)) @ [SpeedLine ''10kB'' m1]\<rparr>"
  define w2 where "w2 = w1\<lparr>sent := sent w1 @ replicate 10 (download_request 101000),
      console := console w1 @ map ErrorLine (rejected (probes w1 (length (sent w1)) 10))
        @ [SpeedLine ''100kB'' m2]\<rparr>"
  define w3 where "w3 = w2\<lparr>sent := sent w2 @ replicate 8 (download_request 1001000),
      console := console w2 @ map ErrorLine (rejected (probes w2 (length (sent w2)) 8))
        @ [SpeedLine ''1MB'' m3]\<rparr>"
  define w4 where "w4 = w3\<lparr>sent := sent w3 @ replicate 5 (download_request 10001000),
      console := console w3 @ map ErrorLine (rejected (probes w3 (length (sent w3)) 5))
        @ [SpeedLine ''10MB'' m4]\<rparr>"
  define w5 where "w5 = w4\<lparr>sent := sent w4 @ replicate 5 (download_request 25001000),
      console := console w4 @ map ErrorLine (rejected (probes w4 (length (sent w4)) 5))
        @ [SpeedLine ''25MB'' m5]\<rparr>"
  define w6 where "w6 = w5\<lparr>sent := sent w5 @ replicate 5 (download_request 100001000),
      console := console w5 @ map ErrorLine (rejected (probes w5 (length (sent w5)) 5))
        @ [SpeedLine ''100MB'' m6]\<rparr>"
  have split: "list_all settles (probes w ?b 10)" "list_all settles (probes w (?b + 10) 10)"
    "list_all settles (probes w (?b + 20) 8)" "list_all settles (probes w (?b + 28) 5)"
    "list_all settles (probes w (?b + 33) 5)" "list_all settles (probes w (?b + 38) 5)"
    using settle list_all_probes_add[of w ?b 10 33] list_all_probes_add[of w "?b + 10" 10 23]
      list_all_probes_add[of w "?b + 20" 8 15] list_all_probes_add[of w "?b + 28" 5 10]
      list_all_probes_add[of w "?b + 33" 5 5]
    by (simp_all add: add.assoc)
  have l1: "length (sent w1) = ?b + 10" and p1: "\<And>c n. probes w1 c n = probes w c n"
    by (simp_all add: w1_def probes_def)
  have l2: "length (sent w2) = ?b + 20" and p2: "\<And>c n. probes w2 c n = probes w c n"
    by (simp_all add: w2_def l1 p1 probes_cong)
  have l3: "length (sent w3) = ?b + 28" and p3: "\<And>c n. probes w3 c n = probes w c n"
    by (simp_all add: w3_def l2 p2 probes_cong)
  have l4: "length (sent w4) = ?b + 33" and p4: "\<And>c n. probes w4 c n = probes w c n"
    by (simp_all add: w4_def l3 p3 probes_cong)
  have l5: "length (sent w5) = ?b + 38" and p5: "\<And>c n. probes w5 c n = probes w c n"
    by (simp_all add: w5_def l4 p4 probes_cong)
  note ls = l1 l2 l3 l4 l5 and ps = p1 p2 p3 p4 p5
  have s1: "list_all settles (probes w (length (sent w)) 10)" using split(1) .
  have s2: "list_all settles (probes w1 (length (sent w1)) 10)" using split(2) by (simp add: ls ps)
  have s3: "list_all settles (probes w2 (length (sent w2)) 8)" using split(3) by (simp add: ls ps)
  have s4: "list_all settles (probes w3 (length (sent w3)) 5)" using split(4) by (simp add: ls ps)
  have s5: "list_all settles (probes w4 (length (sent w4)) 5)" using split(5) by (simp add: ls ps)
  have s6: "list_all settles (probes w5 (length (sent w5)) 5)" using split(6) by (simp add: ls ps)
  have d1: "median st (download_samples 11000 (probes w (length (sent w)) 10)) = Inr m1"
    using m1 t1 by simp
  have d2: "median st (download_samples 101000 (probes w1 (length (sent w1)) 10)) = Inr m2"
    using m2 t2 by (simp add: ls ps)
  have d3: "median st (download_samples 1001000 (probes w2 (length (sent w2)) 8)) = Inr m3"
    using m3 t3 by (simp add: ls ps)
  have d4: "median st (download_samples 10001000 (probes w3 (length (sent w3)) 5)) = Inr m4"
    using m4 t4 by (simp add: ls ps)
  have d5: "median st (download_samples 25001000 (probes w4 (length (sent w4)) 5)) = Inr m5"
    using m5 t5 by (simp add: ls ps)
  have d6: "median st (download_samples 100001000 (probes w5 (length (sent w5)) 5)) = Inr m6"
    using m6 t6 by (simp add: ls ps)
  have "downloadStage st w =
      (case quartile st (test1 @ test2 @ test3 @ test4 @ test5 @ test6) lit_0_9 of
         Inl x \<Rightarrow> (Inl (Throws x), w6)
       | Inr speed \<Rightarrow> (Inr (), log (DownloadLine speed) w6))"
    unfolding downloadStage_def download_block[OF s1 d1]
    unfolding w1_def[symmetric] download_block[OF s2 d2]
    unfolding w2_def[symmetric] download_block[OF s3 d3]
    unfolding w3_def[symmetric] download_block[OF s4 d4]
    unfolding w4_def[symmetric] download_block[OF s5 d5]
    unfolding w5_def[symmetric] download_block[OF s6 d6]
    unfolding w6_def[symmetric]
    by (simp add: t1 t2 t3 t4 t5 t6 ls ps)
  then show "downloadStage st w =
     (Inr (),
      w\<lparr>sent := sent w
                @ concat (map (\<lambda>(bytes, n). replicate n (download_request bytes)) download_plan),
        console := console w
          @ map ErrorLine (rejected (probes w (length (sent w)) 10))
          @ [SpeedLine ''10kB'' m1]
          @ map ErrorLine (rejected (probes w (length (sent w) + 10) 10))
          @ [SpeedLine ''100kB'' m2]
          @ map ErrorLine (rejected (probes w (length (sent w) + 20) 8))
          @ [SpeedLine ''1MB'' m3]
          @ map ErrorLine (rejected (probes w (length (sent w) + 28) 5))
          @ [SpeedLine ''10MB'' m4]
          @ map ErrorLine (rejected (probes w (length (sent w) + 33) 5))
          @ [SpeedLine ''25MB'' m5]
          @ map ErrorLine (rejected (probes w (length (sent w) + 38) 5))
          @ [SpeedLine ''100MB'' m6]
          @ [DownloadLine speed]\<rparr>)"
    by (simp add: headline log_def w6_def w5_def w4_def w3_def w2_def w1_def ls ps probes_cong
        download_plan_def)
  show "sorted_wrt (<) (map fst download_plan)"
    by (simp add: download_plan_def)
  show "\<forall>payloadSize os. download_samples payloadSize os =
          map (\<lambda>r. throughputMbps_spec (num_of_nat payloadSize)
                      (jsub (ended r) (toNumber (ttfb r))))
            (resolved os)"
    by (simp add: download_samples_def)
qed

section \<open>Failed probes\<close>

lemma resolved_skips_rejected:
  "resolved (xs @ ReqError e # ys) = resolved (xs @ ys)"
  by (simp add: resolved_append on_outcome_def)

lemma rejected_keeps_error:
  "rejected (xs @ ReqError e # ys) = rejected xs @ e # rejected ys"
  by (simp add: rejected_append on_outcome_def)

text \<open>
  C6 (as amended): in every stage a probe whose request is rejected, because the
  runtime reports an error on the request, is caught and reported (its error is a
  line of the console), contributes no value to the sample set (the samples come from
  the resolved probes only), and the stage performs all its iterations and summarises
  the samples of the remaining probes. Stated for measurements in which every request
  settles (it is rejected, or its response ends and has a timing header) and the
  upload body is within the maximum string length.
\<close>

theorem failed_probe_contained:
  assumes "list_all settles (probes w (length (sent w)) n)"
    and "list_all settles (probes w (length (sent w)) 20)"
    and "bytes \<le> max_string_length w"
  shows "measureDownload bytes n w =
     (Inr (download_samples bytes (probes w (length (sent w)) n)),
      w\<lparr>sent := sent w @ replicate n (download_request bytes),
        console := console w @ map ErrorLine (rejected (probes w (length (sent w)) n))\<rparr>)
    \<and> measureUpload bytes n w =
     (Inr (upload_samples bytes (probes w (length (sent w)) n)),
      w\<lparr>sent := sent w @ replicate n (upload_request bytes),
        console := console w @ map ErrorLine (rejected (probes w (length (sent w)) n))\<rparr>)
    \<and> measureLatency st w =
     (let ms = latency_samples (probes w (length (sent w)) 20)
      in case average st ms of
           Inl x \<Rightarrow> Inl (Throws x)
         | Inr avg \<Rightarrow>
             (case median st ms of
                Inl x \<Rightarrow> Inl (Throws x)
              | Inr med \<Rightarrow> Inr (Math_min ms, Math_max ms, avg, med)),
      w\<lparr>sent := sent w @ replicate 20 (download_request 1000),
        console := console w @ map ErrorLine (rejected (probes w (length (sent w)) 20))\<rparr>)
    \<and> resolved (os @ ReqError e # os') = resolved (os @ os')
    \<and> rejected (os @ ReqError e # os') = rejected os @ e # rejected os'"
proof (intro conjI)
  show "measureDownload bytes n w =
     (Inr (download_samples bytes (probes w (length (sent w)) n)),
      w\<lparr>sent := sent w @ replicate n (download_request bytes),
        console := console w @ map ErrorLine (rejected (probes w (length (sent w)) n))\<rparr>)"
    using download_loop_run[OF assms(1), of bytes "[]"] by (simp add: measureDownload_def)
  show "measureUpload bytes n w =
     (Inr (upload_samples bytes (probes w (length (sent w)) n)),
      w\<lparr>sent := sent w @ replicate n (upload_request bytes),
        console := console w @ map ErrorLine (rejected (probes w (length (sent w)) n))\<rparr>)"
    using upload_loop_run[OF assms(1,3), of "[]"] by (simp add: measureUpload_def)
  show "measureLatency st w =
     (let ms = latency_samples (probes w (length (sent w)) 20)
      in case average st ms of
           Inl x \<Rightarrow> Inl (Throws x)
         | Inr avg \<Rightarrow>
             (case median st ms of
                Inl x \<Rightarrow> Inl (Throws x)
              | Inr med \<Rightarrow> Inr (Math_min ms, Math_max ms, avg, med)),
      w\<lparr>sent := sent w @ replicate 20 (download_request 1000),
        console := console w @ map ErrorLine (rejected (probes w (length (sent w)) 20))\<rparr>)"
    using assms(2) by (rule measureLatency_run)
  show "resolved (os @ ReqError e # os') = resolved (os @ os')"
    by (rule resolved_skips_rejected)
  show "rejected (os @ ReqError e # os') = rejected os @ e # rejected os'"
    by (rule rejected_keeps_error)
qed

section \<open>A probe that never settles\<close>

text \<open>
  A loop of \<open>m + n\<close> iterations is the loop of \<open>m\<close> iterations followed, if that one
  returns, by the loop of the \<open>n\<close> others.
\<close>

lemma latency_loop_add:
  "latency_loop (m + n) ms w =
     (case latency_loop m ms w of
        (Inl x, w') \<Rightarrow> (Inl x, w')
      | (Inr ms', w') \<Rightarrow> latency_loop n ms' w')"
  by (induction m arbitrary: ms w) (auto split: prod.splits settled.splits)

lemma download_loop_add:
  "download_loop bytes (m + n) ms w =
     (case download_loop bytes m ms w of
        (Inl x, w') \<Rightarrow> (Inl x, w')
      | (Inr ms', w') \<Rightarrow> download_loop bytes n ms' w')"
  by (induction m arbitrary: ms w) (auto split: prod.splits settled.splits)

lemma upload_loop_add:
  "upload_loop bytes (m + n) ms w =
     (case upload_loop bytes m ms w of
        (Inl x, w') \<Rightarrow> (Inl x, w')
      | (Inr ms', w') \<Rightarrow> upload_loop bytes n ms' w')"
  by (induction m arbitrary: ms w) (auto split: prod.splits settled.splits)

text \<open>
  At the first request that neither fails nor ends, a loop stops for good: the request
  has been issued, nothing is printed for it, and no further request is issued.
\<close>

lemma latency_loop_stalls:
  assumes "list_all settles (probes w (length (sent w)) m)"
    and "net w (length (sent w) + m) = Stalled"
  shows "latency_loop (m + Suc k) ms w =
     (Inl Hangs,
      w\<lparr>sent := sent w @ replicate (Suc m) (download_request 1000),
        console := console w @ map ErrorLine (rejected (probes w (length (sent w)) m))\<rparr>)"
proof -
  have probe: "download 1000 w' = (Pending, w'\<lparr>sent := sent w' @ [download_request 1000]\<rparr>)"
    if "net w' (length (sent w')) = Stalled" for w'
    using that by (simp add: download_def request_def on_outcome_def download_request_def)
  show ?thesis
    unfolding latency_loop_add latency_loop_run[OF assms(1)]
    using assms(2) by (simp add: probe replicate_append_same)
qed

lemma download_loop_stalls:
  assumes "list_all settles (probes w (length (sent w)) m)"
    and "net w (length (sent w) + m) = Stalled"
  shows "download_loop bytes (m + Suc k) ms w =
     (Inl Hangs,
      w\<lparr>sent := sent w @ replicate (Suc m) (download_request bytes),
        console := console w @ map ErrorLine (rejected (probes w (length (sent w)) m))\<rparr>)"
proof -
  have probe: "download bytes w' = (Pending, w'\<lparr>sent := sent w' @ [download_request bytes]\<rparr>)"
    if "net w' (length (sent w')) = Stalled" for w'
    using that by (simp add: download_def request_def on_outcome_def download_request_def)
  show ?thesis
    unfolding download_loop_add download_loop_run[OF assms(1)]
    using assms(2) by (simp add: probe replicate_append_same)
qed

lemma upload_loop_stalls:
  assumes "list_all settles (probes w (length (sent w)) m)"
    and "net w (length (sent w) + m) = Stalled"
    and "bytes \<le> max_string_length w"
  shows "upload_loop bytes (m + Suc k) ms w =
     (Inl Hangs,
      w\<lparr>sent := sent w @ replicate (Suc m) (upload_request bytes),
        console := console w @ map ErrorLine (rejected (probes w (length (sent w)) m))\<rparr>)"
proof -
  have probe: "upload bytes w' = (Pending, w'\<lparr>sent := sent w' @ [upload_request bytes]\<rparr>)"
    if "net w' (length (sent w')) = Stalled" "bytes \<le> max_string_length w'" for w'
    using that by (simp add: upload_fits on_outcome_def)
  show ?thesis
    unfolding upload_loop_add upload_loop_run[OF assms(1,3)]
    using assms(2,3) by (simp add: probe max_string_length_cong replicate_append_same)
qed

section \<open>A stage whose probes all fail\<close>

lemma fails_settles: "fails out \<Longrightarrow> settles out"
  by (cases out) simp_all

lemma all_fail_settle: "list_all fails os \<Longrightarrow> list_all settles os"
  by (induction os) (simp_all add: fails_settles)

lemma all_fail_resolved: "list_all fails os \<Longrightarrow> resolved os = []"
proof (induction os)
  case Nil
  then show ?case by simp
next
  case (Cons out os)
  then obtain e where "out = ReqError e" by (cases out) simp_all
  with Cons show ?case by (simp add: on_outcome_def)
qed

lemma all_fail_prefix:
  "list_all fails (probes w b (m + n)) \<Longrightarrow> list_all fails (probes w b m)"
  by (simp add: probes_add)

lemma stats_spec_empty:
  "average stats_spec [] = Inl InvalidInput"
  "median stats_spec [] = Inl InvalidInput"
  "quartile stats_spec [] q = Inl InvalidInput"
  by (simp_all add: stats_spec_def average_spec_def median_spec_def quantile_spec_def)

lemma measureLatency_all_fail:
  assumes "list_all fails (probes w (length (sent w)) 20)"
  shows "fst (measureLatency stats_spec w) = Inl (Throws InvalidInput)"
  using measureLatency_run[OF all_fail_settle[OF assms], of stats_spec]
    all_fail_resolved[OF assms]
  by (simp add: latency_samples_def stats_spec_empty)

lemma downloadStage_all_fail:
  assumes "list_all fails (probes w (length (sent w)) 10)"
  shows "fst (downloadStage stats_spec w) = Inl (Throws InvalidInput)"
  using download_loop_run[OF all_fail_settle[OF assms], of 11000 "[]"]
    all_fail_resolved[OF assms]
  by (simp add: downloadStage_def await_then_def measureDownload_def logSpeedTestResult_def
      download_samples_def stats_spec_empty)

lemma uploadStage_all_fail:
  assumes "list_all fails (probes w (length (sent w)) 28)"
  shows "fst (uploadStage stats_spec w) = Inl (Throws InvalidInput)"
proof -
  let ?b = "length (sent w)"
  have f: "list_all fails (probes w ?b 10)" "list_all fails (probes w (?b + 10) 10)"
    "list_all fails (probes w (?b + 20) 8)"
    using assms probes_add[of w ?b 10 18] probes_add[of w "?b + 10" 10 8]
    by (simp_all add: add.assoc)
  have q: "quartile stats_spec
      (upload_samples 11000 (probes w ?b 10) @ upload_samples 101000 (probes w (?b + 10) 10)
        @ upload_samples 1001000 (probes w (?b + 20) 8)) lit_0_9 = Inl InvalidInput"
    using f by (simp add: upload_samples_def all_fail_resolved stats_spec_empty)
  define w1 where "w1 = w\<lparr>sent := sent w @ replicate 10 (upload_request 11000),
      console := console w @ map ErrorLine (rejected (probes w ?b 10))\<rparr>"
  define w2 where "w2 = w1\<lparr>sent := sent w1 @ replicate 10 (upload_request 101000),
      console := console w1 @ map ErrorLine (rejected (probes w1 (length (sent w1)) 10))\<rparr>"
  have l1: "length (sent w1) = ?b + 10" and p1: "\<And>c n. probes w1 c n = probes w c n"
    by (simp_all add: w1_def probes_def)
  have l2: "length (sent w2) = ?b + 20" and p2: "\<And>c n. probes w2 c n = probes w c n"
    by (simp_all add: w2_def l1 probes_def w1_def)
  have s1: "list_all settles (probes w (length (sent w)) 10)"
    using f(1) by (rule all_fail_settle)
  have s2: "list_all settles (probes w1 (length (sent w1)) 10)"
    using all_fail_settle[OF f(2)] by (simp add: l1 p1)
  have s3: "list_all settles (probes w2 (length (sent w2)) 8)"
    using all_fail_settle[OF f(3)] by (simp add: l2 p2)
  have fit: "11000 \<le> max_string_length w" "101000 \<le> max_string_length w1"
    "1001000 \<le> max_string_length w2"
    by (simp_all add: max_string_length_ge)
  show ?thesis
    unfolding uploadStage_def upload_block[OF s1 fit(1)]
    unfolding w1_def[symmetric] upload_block[OF s2 fit(2)]
    unfolding w2_def[symmetric] upload_block[OF s3 fit(3)]
    using q by (simp add: l1 l2 p1 p2)
qed

text \<open>
  C7: when all probes of a stage fail, the summary over the empty sample set fails
  with \<open>InvalidInput\<close>; the stage does not return 0, \<open>NaN\<close> or an infinite value, and
  a latency stage that fails so ends the whole run. The statistics functions are the
  ones modelled from the specification.
\<close>

theorem all_probes_fail_invalid_input:
  "(list_all fails (probes w (length (sent w)) 20) \<longrightarrow>
      fst (measureLatency stats_spec w) = Inl (Throws InvalidInput)
      \<and> fst (speedTest stats_spec w) = Inl (Throws InvalidInput))
   \<and> (list_all fails (probes w (length (sent w)) 43) \<longrightarrow>
      fst (downloadStage stats_spec w) = Inl (Throws InvalidInput))
   \<and> (list_all fails (probes w (length (sent w)) 28) \<longrightarrow>
      fst (uploadStage stats_spec w) = Inl (Throws InvalidInput))"
proof (intro conjI impI)
  assume f: "list_all fails (probes w (length (sent w)) 20)"
  then show l: "fst (measureLatency stats_spec w) = Inl (Throws InvalidInput)"
    by (rule measureLatency_all_fail)
  then show "fst (speedTest stats_spec w) = Inl (Throws InvalidInput)"
    by (cases "measureLatency stats_spec w")
      (simp add: speedTest_def latencyStage_def await_then_def)
next
  assume "list_all fails (probes w (length (sent w)) 43)"
  then have "list_all fails (probes w (length (sent w)) 10)"
    using all_fail_prefix[of w "length (sent w)" 10 33] by simp
  then show "fst (downloadStage stats_spec w) = Inl (Throws InvalidInput)"
    by (rule downloadStage_all_fail)
next
  assume "list_all fails (probes w (length (sent w)) 28)"
  then show "fst (uploadStage stats_spec w) = Inl (Throws InvalidInput)"
    by (rule uploadStage_all_fail)
qed

section \<open>A timing header that does not parse\<close>

lemma jsub_NaN: "jsub a NaN = NaN"
  by (simp add: jsub_def jadd_def)

lemma throughput_NaN: "throughputMbps_spec b NaN = NaN"
  by (simp add: throughputMbps_spec_def Let_def jdiv_def)

lemma on_outcome_unparsed:
  assumes "server_timing x = Some h" "parseFloat (drop 22 h) = NaN"
  shows "on_outcome (ResEnd x) =
     Resolve \<lparr>started = now_started x, dnsLookup = now_lookup x, tcpHandshake = now_connect x,
       sslHandshake = now_secureConnect x, ttfb = now_readable x, ended = now_end x,
       serverTime = NaN\<rparr>"
  using assms by (simp add: on_outcome_def)

text \<open>
  C8 (as amended): a probe whose response carries a timing header that does not parse
  is not skipped. Its promise resolves with \<open>NaN\<close> as the server processing time;
  the latency loop and the upload loop push \<open>NaN\<close> for it, the download loop pushes
  the throughput computed from the local timestamps, and each loop goes on with the
  remaining iterations. (An upload of more bytes than a string can hold sends no
  request at all.)
\<close>

theorem unparsed_timing_not_skipped:
  assumes "net w (length (sent w)) = ResEnd x"
    and "server_timing x = Some h"
    and "parseFloat (drop 22 h) = NaN"
  shows "latency_loop (Suc k) ms w =
      latency_loop k (ms @ [NaN]) (w\<lparr>sent := sent w @ [download_request 1000]\<rparr>)
    \<and> upload_loop bytes (Suc k) ms w =
      (if max_string_length w < bytes then (Inl (Throws RangeError), w)
       else upload_loop bytes k (ms @ [NaN]) (w\<lparr>sent := sent w @ [upload_request bytes]\<rparr>))
    \<and> download_loop bytes (Suc k) ms w =
      download_loop bytes k
        (ms @ [throughputMbps_spec (num_of_nat bytes)
                 (jsub (now_end x) (toNumber (now_readable x)))])
        (w\<lparr>sent := sent w @ [download_request bytes]\<rparr>)"
proof (intro conjI)
  note res = on_outcome_unparsed[OF assms(2,3)]
  show "latency_loop (Suc k) ms w =
      latency_loop k (ms @ [NaN]) (w\<lparr>sent := sent w @ [download_request 1000]\<rparr>)"
    by (simp add: download_def request_def assms(1) res jsub_NaN download_request_def)
  show "upload_loop bytes (Suc k) ms w =
      (if max_string_length w < bytes then (Inl (Throws RangeError), w)
       else upload_loop bytes k (ms @ [NaN]) (w\<lparr>sent := sent w @ [upload_request bytes]\<rparr>))"
    by (simp add: upload_def request_def assms(1) res measureSpeed_spec throughput_NaN
        upload_request_def Let_def)
  show "download_loop bytes (Suc k) ms w =
      download_loop bytes k
        (ms @ [throughputMbps_spec (num_of_nat bytes)
                 (jsub (now_end x) (toNumber (now_readable x)))])
        (w\<lparr>sent := sent w @ [download_request bytes]\<rparr>)"
    by (simp add: download_def request_def assms(1) res measureSpeed_spec download_request_def)
qed

section \<open>The requests of the probes\<close>

lemma is_digit_char_of: "(d::nat) < 10 \<Longrightarrow> is_digit (char_of (48 + d))"
  by (simp add: is_digit_def)

lemma digit_val_char_of: "(d::nat) < 10 \<Longrightarrow> digit_val (char_of (48 + d)) = d"
  by (simp add: digit_val_def)

lemma decimal_digits: "list_all is_digit (decimal n)"
proof (induction n rule: decimal.induct)
  case (1 n)
  show ?case
  proof (cases "n < 10")
    case True
    then show ?thesis by (subst decimal.simps) (simp add: is_digit_char_of)
  next
    case False
    have "n mod 10 < 10" by simp
    then have "is_digit (char_of (48 + n mod 10))" by (rule is_digit_char_of)
    with False "1.IH" show ?thesis by (subst decimal.simps) simp
  qed
qed

lemma decimal_nonempty: "decimal n \<noteq> []"
  by (subst decimal.simps) simp

lemma digits_val_snoc: "digits_val (ds @ [c]) = 10 * digits_val ds + digit_val c"
  by (simp add: digits_val_def)

lemma digits_val_decimal: "digits_val (decimal n) = n"
proof (induction n rule: decimal.induct)
  case (1 n)
  show ?case
  proof (cases "n < 10")
    case True
    then show ?thesis
      by (subst decimal.simps) (simp add: digits_val_def digit_val_char_of)
  next
    case False
    have "n mod 10 < 10" by simp
    then have "digit_val (char_of (48 + n mod 10)) = n mod 10" by (rule digit_val_char_of)
    with False "1.IH" show ?thesis
      by (subst decimal.simps) (simp add: digits_val_snoc)
  qed
qed

lemma query_bytes_decimal: "query_bytes (''/__down?bytes='' @ decimal n) = Some n"
  by (simp add: query_bytes_def decimal_digits decimal_nonempty digits_val_decimal)

lemma byteLength_zeros: "byteLength (replicate n (CHR ''0'')) = n"
  by (induction n) (simp_all add: byteLength_def)

lemma download_path:
  "path (fst (download_request bytes)) = ''/__down?bytes='' @ toString bytes"
  by (simp add: download_request_def download_options_def)

text \<open>
  C9 (as amended): for every payload size below \<open>2^53\<close> a download probe issues a
  GET whose target carries the byte count, in decimal digits, as the query parameter
  \<open>bytes\<close>; and for every payload size that is not above the maximum string
  length an upload probe issues a POST whose body is exactly that many bytes, with a
  \<open>Content-Length\<close> header equal to the size of the body. An upload of a larger
  size throws a RangeError and issues no request.
\<close>

theorem probe_requests:
  assumes "bytes < 2 ^ 53"
    and "payload \<le> max_string_length w"
    and "max_string_length w < oversize"
  shows "download bytes w =
     (on_outcome (net w (length (sent w))), w\<lparr>sent := sent w @ [download_request bytes]\<rparr>)
   \<and> http_method (fst (download_request bytes)) = ''GET''
   \<and> path (fst (download_request bytes)) = ''/__down?bytes='' @ decimal bytes
   \<and> query_bytes (path (fst (download_request bytes))) = Some bytes
   \<and> snd (download_request bytes) = []
   \<and> upload payload w =
     (on_outcome (net w (length (sent w))), w\<lparr>sent := sent w @ [upload_request payload]\<rparr>)
   \<and> http_method (fst (upload_request payload)) = ''POST''
   \<and> snd (upload_request payload) = replicate payload (CHR ''0'')
   \<and> byteLength (snd (upload_request payload)) = payload
   \<and> headers (fst (upload_request payload)) =
       [(''Content-Length'', byteLength (snd (upload_request payload)))]
   \<and> upload oversize w = (Uncaught RangeError, w)"
proof (intro conjI)
  have p: "path (fst (download_request bytes)) = ''/__down?bytes='' @ decimal bytes"
    by (simp only: download_path toString_safe[OF assms(1)])
  show "download bytes w =
     (on_outcome (net w (length (sent w))), w\<lparr>sent := sent w @ [download_request bytes]\<rparr>)"
    by (simp add: download_def request_def download_request_def)
  show "http_method (fst (download_request bytes)) = ''GET''"
    by (simp add: download_request_def download_options_def)
  show "path (fst (download_request bytes)) = ''/__down?bytes='' @ decimal bytes"
    by (rule p)
  show "query_bytes (path (fst (download_request bytes))) = Some bytes"
    by (simp only: p query_bytes_decimal)
  show "snd (download_request bytes) = []"
    by (simp add: download_request_def)
  show "upload payload w =
     (on_outcome (net w (length (sent w))), w\<lparr>sent := sent w @ [upload_request payload]\<rparr>)"
    using assms(2) by (rule upload_fits)
  show "http_method (fst (upload_request payload)) = ''POST''"
    by (simp add: upload_request_def upload_options_def)
  show "snd (upload_request payload) = replicate payload (CHR ''0'')"
    by (simp add: upload_request_def)
  show "byteLength (snd (upload_request payload)) = payload"
    by (simp add: upload_request_def byteLength_zeros)
  show "headers (fst (upload_request payload)) =
       [(''Content-Length'', byteLength (snd (upload_request payload)))]"
    by (simp add: upload_request_def upload_options_def)
  show "upload oversize w = (Uncaught RangeError, w)"
    using assms(3) by (rule upload_too_long)
qed

section \<open>The connection-establishment timestamps\<close>

lemma erase_world_simps:
  "net (erase_world w) i = erase_conn (net w i)"
  "sent (erase_world w) = sent w"
  "console (erase_world w) = console w"
  by (simp_all add: erase_world_def)

lemma erase_world_log: "log l (erase_world w) = erase_world (log l w)"
  by (simp add: erase_world_def log_def)

lemma on_outcome_erase:
  "on_outcome (erase_conn out) =
     (case on_outcome out of Resolve r \<Rightarrow> Resolve (erase_response r) | s \<Rightarrow> s)"
  by (cases out) (simp_all add: on_outcome_def erase_response_def split: option.splits)

lemma erase_response_simps:
  "started (erase_response r) = started r" "ttfb (erase_response r) = ttfb r"
  "ended (erase_response r) = ended r" "serverTime (erase_response r) = serverTime r"
  by (simp_all add: erase_response_def)

lemma request_erase:
  "request opts data (erase_world w) =
     (case fst (request opts data w) of
        Resolve r \<Rightarrow> Resolve (erase_response r) | s \<Rightarrow> s,
      erase_world (snd (request opts data w)))"
  by (simp add: request_def erase_world_def on_outcome_erase)

lemma download_erase:
  assumes "download bytes w = (s, w')"
  shows "download bytes (erase_world w) =
     (case s of Resolve r \<Rightarrow> Resolve (erase_response r) | s \<Rightarrow> s, erase_world w')"
  using assms request_erase[of "download_options bytes" "[]" w] by (simp add: download_def)

lemma max_string_length_erase: "max_string_length (erase_world w) = max_string_length w"
  by (simp add: max_string_length_def erase_world_def)

lemma upload_erase:
  assumes "upload bytes w = (s, w')"
  shows "upload bytes (erase_world w) =
     (case s of Resolve r \<Rightarrow> Resolve (erase_response r) | s \<Rightarrow> s, erase_world w')"
proof (cases "max_string_length w < bytes")
  case True
  then show ?thesis
    using assms by (auto simp: upload_def max_string_length_erase)
next
  case False
  then show ?thesis
    using assms
      request_erase[of "upload_options (replicate bytes (CHR ''0''))" "replicate bytes (CHR ''0'')" w]
    by (simp add: upload_def Let_def max_string_length_erase)
qed

lemma latency_loop_blind:
  "latency_loop k ms (erase_world w) =
     (fst (latency_loop k ms w), erase_world (snd (latency_loop k ms w)))"
proof (induction k arbitrary: ms w)
  case 0
  then show ?case by simp
next
  case (Suc k)
  obtain s w' where d: "download 1000 w = (s, w')"
    by (cases "download 1000 w")
  note de = download_erase[OF d]
  show ?case
    by (cases s) (simp_all add: d de Suc.IH erase_response_simps erase_world_log)
qed

lemma download_loop_blind:
  "download_loop bytes k ms (erase_world w) =
     (fst (download_loop bytes k ms w), erase_world (snd (download_loop bytes k ms w)))"
proof (induction k arbitrary: ms w)
  case 0
  then show ?case by simp
next
  case (Suc k)
  obtain s w' where d: "download bytes w = (s, w')"
    by (cases "download bytes w")
  note de = download_erase[OF d]
  show ?case
    by (cases s) (simp_all add: d de Suc.IH erase_response_simps erase_world_log)
qed

lemma upload_loop_blind:
  "upload_loop bytes k ms (erase_world w) =
     (fst (upload_loop bytes k ms w), erase_world (snd (upload_loop bytes k ms w)))"
proof (induction k arbitrary: ms w)
  case 0
  then show ?case by simp
next
  case (Suc k)
  obtain s w' where d: "upload bytes w = (s, w')"
    by (cases "upload bytes w")
  note de = upload_erase[OF d]
  show ?case
    by (cases s) (simp_all add: d de Suc.IH erase_response_simps erase_world_log)
qed

lemma conn_blind_await:
  assumes "conn_blind m" "\<And>a. conn_blind (f a)"
  shows "conn_blind (await_then m f)"
  unfolding conn_blind_def
proof
  fix w
  have m: "m (erase_world w) = (fst (m w), erase_world (snd (m w)))"
    using assms(1) by (simp add: conn_blind_def)
  show "await_then m f (erase_world w) =
      (fst (await_then m f w), erase_world (snd (await_then m f w)))"
  proof (cases "fst (m w)")
    case (Inl x)
    then show ?thesis
      by (cases "m w") (simp add: await_then_def m)
  next
    case (Inr a)
    have "f a (erase_world (snd (m w))) = (fst (f a (snd (m w))), erase_world (snd (f a (snd (m w)))))"
      using assms(2)[of a] by (simp add: conn_blind_def)
    with Inr show ?thesis
      by (cases "m w") (simp add: await_then_def m)
  qed
qed

lemma conn_blind_measureLatency: "conn_blind (measureLatency st)"
  unfolding conn_blind_def
proof
  fix w
  show "measureLatency st (erase_world w) =
      (fst (measureLatency st w), erase_world (snd (measureLatency st w)))"
    by (cases "latency_loop 20 [] w")
      (simp add: measureLatency_def latency_loop_blind Let_def split: sum.splits)
qed

lemma conn_blind_measureDownload: "conn_blind (measureDownload bytes n)"
  by (simp add: conn_blind_def measureDownload_def download_loop_blind)

lemma conn_blind_measureUpload: "conn_blind (measureUpload bytes n)"
  by (simp add: conn_blind_def measureUpload_def upload_loop_blind)

lemma conn_blind_logSpeedTestResult: "conn_blind (logSpeedTestResult st label test)"
  by (simp add: conn_blind_def logSpeedTestResult_def erase_world_log split: sum.splits)

lemma conn_blind_headline:
  "conn_blind (\<lambda>w. case q of Inl x \<Rightarrow> (Inl (Throws x), w) | Inr speed \<Rightarrow> (Inr (), log (l speed) w))"
  by (simp add: conn_blind_def erase_world_log split: sum.splits)

lemma conn_blind_latencyStage: "conn_blind (latencyStage st)"
  unfolding latencyStage_def
  by (intro conn_blind_await conn_blind_measureLatency)
    (simp add: conn_blind_def erase_world_log)

lemma conn_blind_downloadStage: "conn_blind (downloadStage st)"
  unfolding downloadStage_def
  by (intro conn_blind_await conn_blind_measureDownload conn_blind_logSpeedTestResult
      conn_blind_headline)

lemma conn_blind_uploadStage: "conn_blind (uploadStage st)"
  unfolding uploadStage_def
  by (intro conn_blind_await conn_blind_measureUpload conn_blind_headline)

lemma conn_blind_speedTest: "conn_blind (speedTest st)"
  unfolding speedTest_def
  by (intro conn_blind_await conn_blind_latencyStage conn_blind_downloadStage
      conn_blind_uploadStage)

lemma conn_blind_result:
  assumes "conn_blind f" "erase_world w1 = erase_world w2"
  shows "fst (f w1) = fst (f w2)" "console (snd (f w1)) = console (snd (f w2))"
    "sent (snd (f w1)) = sent (snd (f w2))"
proof -
  have "(fst (f w1), erase_world (snd (f w1))) = (fst (f w2), erase_world (snd (f w2)))"
    using assms by (metis conn_blind_def)
  then have e: "fst (f w1) = fst (f w2)" "erase_world (snd (f w1)) = erase_world (snd (f w2))"
    by simp_all
  show "fst (f w1) = fst (f w2)" by (rule e(1))
  show "console (snd (f w1)) = console (snd (f w2))"
    using arg_cong[OF e(2), of console] by (simp add: erase_world_simps)
  show "sent (snd (f w1)) = sent (snd (f w2))"
    using arg_cong[OF e(2), of sent] by (simp add: erase_world_simps)
qed

lemma resolved_erase: "resolved (map erase_conn os) = map erase_response (resolved os)"
  by (induction os) (simp_all add: on_outcome_erase split: settled.splits)

lemma samples_erase:
  "latency_samples (map erase_conn os) = latency_samples os"
  "download_samples bytes (map erase_conn os) = download_samples bytes os"
  "upload_samples bytes (map erase_conn os) = upload_samples bytes os"
  by (simp_all add: latency_samples_def download_samples_def upload_samples_def resolved_erase
      erase_response_simps comp_def)

text \<open>
  C10: no reported figure depends on the connection-establishment timestamps. For two
  worlds that differ only in the DNS-lookup, TCP-connect and TLS-handshake timestamps
  of their exchanges, the latency stage, the download and the upload measurements and
  the whole run give the same results and print the same lines; and the samples
  taken from any responses are those taken from the responses without these
  timestamps.
\<close>

theorem conn_timestamps_unread:
  assumes "erase_world w1 = erase_world w2"
  shows "fst (measureLatency st w1) = fst (measureLatency st w2)
    \<and> fst (measureDownload bytes n w1) = fst (measureDownload bytes n w2)
    \<and> fst (measureUpload bytes n w1) = fst (measureUpload bytes n w2)
    \<and> fst (speedTest st w1) = fst (speedTest st w2)
    \<and> console (snd (speedTest st w1)) = console (snd (speedTest st w2))
    \<and> latency_samples (map erase_conn os) = latency_samples os
    \<and> download_samples bytes (map erase_conn os) = download_samples bytes os
    \<and> upload_samples bytes (map erase_conn os) = upload_samples bytes os"
  using conn_blind_result(1)[OF conn_blind_measureLatency assms, of st]
    conn_blind_result(1)[OF conn_blind_measureDownload assms, of bytes n]
    conn_blind_result(1)[OF conn_blind_measureUpload assms, of bytes n]
    conn_blind_result(1,2)[OF conn_blind_speedTest assms, of st]
    samples_erase
  by simp

section \<open>Evaluating the example runs\<close>

lemma rnd_numeral: "(numeral k :: int) < 2 ^ 53 \<Longrightarrow> rnd (numeral k) = Num (numeral k)"
  using rnd_int[of "numeral k"] by simp

lemma rnd_0: "rnd 0 = Num 0"
  by (simp add: rnd_def)

lemmas arith_eval = jadd_def jsub_def jmul_def jdiv_def jlt_def rnd_numeral rnd_0
  signed_zero_def signed_inf_def num_of_nat_def

lemma replicate_numeral_eval: "replicate (numeral k) x = x # replicate (pred_numeral k) x"
  by (simp add: numeral_eq_Suc)

lemma parseFloat_25: "parseFloat ''25'' = Num 25"
  by code_simp

lemma parseFloat_garbled: "parseFloat ''n/a'' = NaN"
  by code_simp

lemma on_outcome_ReqError: "on_outcome (ReqError e) = Reject e"
  by (simp add: on_outcome_def)

lemma on_outcome_x_ok:
  "on_outcome (ResEnd x_ok) =
     Resolve \<lparr>started = Num 0, dnsLookup = Some (Num 1), tcpHandshake = Some (Num 2),
       sslHandshake = Some (Num 3), ttfb = Some (Num 40), ended = Num 90, serverTime = Num 25\<rparr>"
  by (simp add: on_outcome_def x_ok_def parseFloat_25)

lemma on_outcome_x_slow:
  "on_outcome (ResEnd x_slow) =
     Resolve \<lparr>started = Num 0, dnsLookup = Some (Num 1), tcpHandshake = Some (Num 2),
       sslHandshake = Some (Num 3), ttfb = Some (Num 225), ended = Num 275, serverTime = Num 25\<rparr>"
  by (simp add: on_outcome_def x_ok_def x_slow_def parseFloat_25)

lemma on_outcome_x_garbled:
  "on_outcome (ResEnd x_garbled) =
     Resolve \<lparr>started = Num 0, dnsLookup = Some (Num 1), tcpHandshake = Some (Num 2),
       sslHandshake = Some (Num 3), ttfb = Some (Num 40), ended = Num 90, serverTime = NaN\<rparr>"
  by (simp add: on_outcome_def x_ok_def x_garbled_def parseFloat_garbled)

lemma on_outcome_x_bare: "on_outcome (ResEnd x_bare) = Uncaught TypeError"
  by (simp add: on_outcome_def x_ok_def x_bare_def)

lemma server_timing_examples:
  "server_timing x_ok = Some ''cfRequestDuration;dur=25''"
  "server_timing x_slow = Some ''cfRequestDuration;dur=25''"
  "server_timing x_garbled = Some ''cfRequestDuration;dur=n/a''"
  "server_timing x_bare = None"
  by (simp_all add: x_ok_def x_slow_def x_garbled_def x_bare_def)

lemma world_of_simps:
  "net (world_of f) = f" "sent (world_of f) = []" "console (world_of f) = []"
  by (simp_all add: world_of_def)

lemma probes_world_of: "probes (world_of f) b n = map f [b..<b + n]"
  by (simp add: probes_def world_of_def)

lemmas run_eval = world_of_simps probes_world_of on_outcome_ReqError on_outcome_x_ok
  on_outcome_x_slow on_outcome_x_garbled on_outcome_x_bare server_timing_examples
  latency_samples_def download_samples_def upload_samples_def

lemma latency_ok: "jsub (jsub (Num 40) (Num 0)) (Num 25) = Num 15"
  by (simp add: arith_eval)

lemma latency_slow: "jsub (jsub (Num 225) (Num 0)) (Num 25) = Num 200"
  by (simp add: arith_eval)

lemma transfer_ok: "jsub (Num 90) (Num 40) = Num 50"
  by (simp add: arith_eval)

lemma num_of_nat_sizes:
  "num_of_nat 11000 = Num 11000" "num_of_nat 101000 = Num 101000"
  "num_of_nat 1001000 = Num 1001000" "num_of_nat 10001000 = Num 10001000"
  "num_of_nat 25001000 = Num 25001000" "num_of_nat 100001000 = Num 100001000"
  by (simp_all add: num_of_nat_def rnd_numeral)

lemma download_50ms:
  "throughputMbps_spec (Num 11000) (Num 50) = Num (7926335344172073 / 4503599627370496)"
  "throughputMbps_spec (Num 101000) (Num 50) = Num (4548635623644201 / 281474976710656)"
  "throughputMbps_spec (Num 1001000) (Num 50) = Num (5635129033747333 / 35184372088832)"
  "throughputMbps_spec (Num 10001000) (Num 50) = Num (7037578105208177 / 4398046511104)"
  "throughputMbps_spec (Num 25001000) (Num 50) = Num (1099555608241111 / 274877906944)"
  "throughputMbps_spec (Num 100001000) (Num 50) = Num (4398090491569111 / 274877906944)"
  by code_simp+

lemma upload_25ms:
  "throughputMbps_spec (Num 11000) (Num 25) = Num (7926335344172073 / 2251799813685248)"
  "throughputMbps_spec (Num 101000) (Num 25) = Num (4548635623644201 / 140737488355328)"
  "throughputMbps_spec (Num 1001000) (Num 25) = Num (5635129033747333 / 17592186044416)"
  by code_simp+

lemma latency_fast: "jsub (jsub (Num 35) (Num 0)) (Num 25) = Num 10"
  by (simp add: arith_eval)

lemma on_outcome_x_fast:
  "on_outcome (ResEnd x_fast) =
     Resolve \<lparr>started = Num 0, dnsLookup = Some (Num 1), tcpHandshake = Some (Num 2),
       sslHandshake = Some (Num 3), ttfb = Some (Num 35), ended = Num 85, serverTime = Num 25\<rparr>"
  by (simp add: on_outcome_def x_ok_def x_fast_def parseFloat_25)

lemma server_timing_x_fast: "server_timing x_fast = Some ''cfRequestDuration;dur=25''"
  by (simp add: x_fast_def x_ok_def)

lemma probes_outlier:
  "latency_samples (probes w_outlier 0 20) =
     map Num (15 # [15, 15, 15, 15, 15, 15, 200, 15, 15, 15, 15, 10, 15, 15, 15, 15, 15, 15, 15])"
  "rejected (probes w_outlier 0 20) = []"
  "list_all settles (probes w_outlier 0 20)"
  by (simp_all add: w_outlier_def run_eval on_outcome_x_fast server_timing_x_fast latency_ok
      latency_slow latency_fast upt_conv_Cons del: upt_Suc)

lemma stats_outlier:
  "average stats_spec
     (map Num (15 # [15, 15, 15, 15, 15, 15, 200, 15, 15, 15, 15, 10, 15, 15, 15, 15, 15, 15, 15]))
     = Inr (Num 24)"
  "median stats_spec
     (map Num (15 # [15, 15, 15, 15, 15, 15, 200, 15, 15, 15, 15, 10, 15, 15, 15, 15, 15, 15, 15]))
     = Inr (Num 15)"
  by (simp_all add: stats_spec_def average_spec_def median_spec_def sort_asc_def arith_eval)

lemma least_greatest_outlier:
  "Min (set (15 # [15, 15, 15, 15, 15, 15, 200, 15, 15, 15, 15, 10, 15, 15, 15, 15, 15, 15, 15 :: rat]))
     = 10"
  "Max (set (15 # [15, 15, 15, 15, 15, 15, 200, 15, 15, 15, 15, 10, 15, 15, 15, 15, 15, 15, 15 :: rat]))
     = 200"
  by simp_all

text \<open>
  A latency stage of 20 probes at 15 ms with one outlier at 200 ms, the eighth, and
  one probe at 10 ms, the thirteenth: the minimum is 10 ms and the maximum 200 ms,
  neither of them the first or the last sample; the median stays at 15 ms and the
  average is 24 ms.
\<close>

theorem measureLatency_report_witness:
  "list_all settles (probes w_outlier (length (sent w_outlier)) 20)
   \<and> average stats_spec (latency_samples (probes w_outlier (length (sent w_outlier)) 20))
       = Inr (Num 24)
   \<and> median stats_spec (latency_samples (probes w_outlier (length (sent w_outlier)) 20))
       = Inr (Num 15)
   \<and> latency_samples (probes w_outlier (length (sent w_outlier)) 20) =
       map Num [15, 15, 15, 15, 15, 15, 15, 200, 15, 15, 15, 15, 10, 15, 15, 15, 15, 15, 15, 15]
   \<and> measureLatency stats_spec w_outlier =
       (Inr (Num 10, Num 200, Num 24, Num 15),
        w_outlier\<lparr>sent := replicate 20 (download_request 1000), console := []\<rparr>)"
proof -
  let ?rs = "[15, 15, 15, 15, 15, 15, 200, 15, 15, 15, 15, 10, 15, 15, 15, 15, 15, 15, 15 :: rat]"
  have b: "length (sent w_outlier) = 0"
    by (simp add: w_outlier_def world_of_simps)
  have s: "list_all settles (probes w_outlier (length (sent w_outlier)) 20)"
    by (simp only: b probes_outlier)
  have a: "average stats_spec (latency_samples (probes w_outlier (length (sent w_outlier)) 20))
       = Inr (Num 24)"
    by (simp only: b probes_outlier stats_outlier)
  have m: "median stats_spec (latency_samples (probes w_outlier (length (sent w_outlier)) 20))
       = Inr (Num 15)"
    by (simp only: b probes_outlier stats_outlier)
  have l: "latency_samples (probes w_outlier (length (sent w_outlier)) 20) =
       map Num [15, 15, 15, 15, 15, 15, 15, 200, 15, 15, 15, 15, 10, 15, 15, 15, 15, 15, 15, 15]"
    by (simp only: b probes_outlier)
  note report = measureLatency_report[OF s a m, of 15 ?rs]
  have lo: "Math_min (map Num (15 # ?rs)) = Num 10"
    using report[THEN conjunct2, THEN conjunct2, THEN conjunct2, THEN conjunct1]
    by (simp only: least_greatest_outlier)
  have hi: "Math_max (map Num (15 # ?rs)) = Num 200"
    using report[THEN conjunct2, THEN conjunct2, THEN conjunct2, THEN conjunct2, THEN conjunct1]
    by (simp only: least_greatest_outlier)
  from report
  have "measureLatency stats_spec w_outlier =
     (Inr (Math_min (latency_samples (probes w_outlier (length (sent w_outlier)) 20)),
           Math_max (latency_samples (probes w_outlier (length (sent w_outlier)) 20)),
           Num 24, Num 15),
      w_outlier\<lparr>sent := sent w_outlier @ replicate 20 (download_request 1000),
        console := console w_outlier
          @ map ErrorLine (rejected (probes w_outlier (length (sent w_outlier)) 20))\<rparr>)"
    by (rule conjunct1)
  then have "measureLatency stats_spec w_outlier =
       (Inr (Num 10, Num 200, Num 24, Num 15),
        w_outlier\<lparr>sent := replicate 20 (download_request 1000), console := []\<rparr>)"
    unfolding b probes_outlier lo hi
    by (simp add: w_outlier_def world_of_simps)
  with s a m l show ?thesis by (intro conjI)
qed

lemma probes_one_fails_5:
  "download_samples 11000 (probes w_one_fails 0 5) =
     replicate 4 (Num (7926335344172073 / 4503599627370496))"
  "upload_samples 11000 (probes w_one_fails 0 5) =
     replicate 4 (Num (7926335344172073 / 2251799813685248))"
  "rejected (probes w_one_fails 0 5) = [''Error: read ECONNRESET'']"
  "list_all settles (probes w_one_fails 0 5)"
  by (simp_all add: w_one_fails_def run_eval transfer_ok num_of_nat_sizes download_50ms
      upload_25ms replicate_numeral_eval upt_conv_Cons del: upt_Suc)

lemma probes_one_fails_20:
  "latency_samples (probes w_one_fails 0 20) = replicate 19 (Num 15)"
  "rejected (probes w_one_fails 0 20) = [''Error: read ECONNRESET'']"
  "list_all settles (probes w_one_fails 0 20)"
  by (simp_all add: w_one_fails_def run_eval latency_ok replicate_numeral_eval
      upt_conv_Cons del: upt_Suc)

lemma stats_one_fails:
  "average stats_spec (replicate 19 (Num 15)) = Inr (Num 15)"
  "median stats_spec (replicate 19 (Num 15)) = Inr (Num 15)"
  "Math_min (replicate 19 (Num 15)) = Num 15"
  "Math_max (replicate 19 (Num 15)) = Num 15"
  by (simp_all add: stats_spec_def average_spec_def median_spec_def sort_asc_def Math_min_def
      Math_max_def arith_eval replicate_numeral_eval)

text \<open>
  Measurements in which the fourth request fails with a connection reset: the error is
  printed, the other probes give the samples, and every request is issued.
\<close>

theorem failed_probe_contained_witness:
  "list_all settles (probes w_one_fails (length (sent w_one_fails)) 5)
   \<and> list_all settles (probes w_one_fails (length (sent w_one_fails)) 20)
   \<and> 11000 \<le> max_string_length w_one_fails
   \<and> net w_one_fails 3 = ReqError ''Error: read ECONNRESET''
   \<and> measureDownload 11000 5 w_one_fails =
       (Inr (replicate 4 (Num (7926335344172073 / 4503599627370496))),
        w_one_fails\<lparr>sent := replicate 5 (download_request 11000),
          console := [ErrorLine ''Error: read ECONNRESET'']\<rparr>)
   \<and> measureUpload 11000 5 w_one_fails =
       (Inr (replicate 4 (Num (7926335344172073 / 2251799813685248))),
        w_one_fails\<lparr>sent := replicate 5 (upload_request 11000),
          console := [ErrorLine ''Error: read ECONNRESET'']\<rparr>)
   \<and> measureLatency stats_spec w_one_fails =
       (Inr (Num 15, Num 15, Num 15, Num 15),
        w_one_fails\<lparr>sent := replicate 20 (download_request 1000),
          console := [ErrorLine ''Error: read ECONNRESET'']\<rparr>)"
proof -
  have b: "length (sent w_one_fails) = 0"
    by (simp add: w_one_fails_def world_of_simps)
  have c: "sent w_one_fails = []" "console w_one_fails = []"
    by (simp_all add: w_one_fails_def world_of_simps)
  have s5: "list_all settles (probes w_one_fails (length (sent w_one_fails)) 5)"
    by (simp only: b probes_one_fails_5)
  have s20: "list_all settles (probes w_one_fails (length (sent w_one_fails)) 20)"
    by (simp only: b probes_one_fails_20)
  have n3: "net w_one_fails 3 = ReqError ''Error: read ECONNRESET''"
    by (simp add: w_one_fails_def world_of_simps)
  have fit: "11000 \<le> max_string_length w_one_fails"
    by (simp add: max_string_length_ge)
  note run = failed_probe_contained[OF s5 s20 fit, where st = stats_spec]
  have d: "measureDownload 11000 5 w_one_fails =
       (Inr (replicate 4 (Num (7926335344172073 / 4503599627370496))),
        w_one_fails\<lparr>sent := replicate 5 (download_request 11000),
          console := [ErrorLine ''Error: read ECONNRESET'']\<rparr>)"
    using run[THEN conjunct1] unfolding b probes_one_fails_5 by (simp add: c)
  have u: "measureUpload 11000 5 w_one_fails =
       (Inr (replicate 4 (Num (7926335344172073 / 2251799813685248))),
        w_one_fails\<lparr>sent := replicate 5 (upload_request 11000),
          console := [ErrorLine ''Error: read ECONNRESET'']\<rparr>)"
    using run[THEN conjunct2, THEN conjunct1] unfolding b probes_one_fails_5 by (simp add: c)
  have l: "measureLatency stats_spec w_one_fails =
       (Inr (Num 15, Num 15, Num 15, Num 15),
        w_one_fails\<lparr>sent := replicate 20 (download_request 1000),
          console := [ErrorLine ''Error: read ECONNRESET'']\<rparr>)"
    using run[THEN conjunct2, THEN conjunct2, THEN conjunct1]
    unfolding b probes_one_fails_20 by (simp add: Let_def stats_one_fails c)
  from s5 s20 fit n3 d u l show ?thesis by (intro conjI)
qed

lemma probes_stalls:
  "rejected (probes w_stalls 0 4) = []"
  "list_all settles (probes w_stalls 0 4)"
  by (simp_all add: w_stalls_def run_eval upt_conv_Cons del: upt_Suc)

text \<open>
  The claim as stated does not hold for a transfer that fails after the response has
  begun. In measurements of ten probes in which the fifth response is cut off after
  its headers, the failure is not caught and nothing is printed: the measurement
  never returns, and the five remaining requests are not issued. The same holds for
  the latency measurement, and the run ends there.
\<close>

theorem stalled_probe_counterexample:
  "net w_stalls 4 = Stalled
   \<and> measureDownload 11000 10 w_stalls =
       (Inl Hangs, w_stalls\<lparr>sent := replicate 5 (download_request 11000), console := []\<rparr>)
   \<and> measureUpload 11000 10 w_stalls =
       (Inl Hangs, w_stalls\<lparr>sent := replicate 5 (upload_request 11000), console := []\<rparr>)
   \<and> measureLatency stats_spec w_stalls =
       (Inl Hangs, w_stalls\<lparr>sent := replicate 5 (download_request 1000), console := []\<rparr>)
   \<and> fst (speedTest stats_spec w_stalls) = Inl Hangs"
proof -
  have c: "sent w_stalls = []" "console w_stalls = []"
    by (simp_all add: w_stalls_def world_of_simps)
  have s: "list_all settles (probes w_stalls (length (sent w_stalls)) 4)"
    by (simp add: c probes_stalls)
  have n: "net w_stalls (length (sent w_stalls) + 4) = Stalled"
    by (simp add: w_stalls_def world_of_simps)
  have fit: "11000 \<le> max_string_length w_stalls"
    by (simp add: max_string_length_ge)
  have n4: "net w_stalls 4 = Stalled"
    using n by (simp add: c)
  have d: "measureDownload 11000 10 w_stalls =
       (Inl Hangs, w_stalls\<lparr>sent := replicate 5 (download_request 11000), console := []\<rparr>)"
    using download_loop_stalls[OF s n, of 11000 5 "[]"]
    by (simp add: measureDownload_def c probes_stalls)
  have u: "measureUpload 11000 10 w_stalls =
       (Inl Hangs, w_stalls\<lparr>sent := replicate 5 (upload_request 11000), console := []\<rparr>)"
    using upload_loop_stalls[OF s n fit, of 5 "[]"]
    by (simp add: measureUpload_def c probes_stalls)
  have l: "measureLatency stats_spec w_stalls =
       (Inl Hangs, w_stalls\<lparr>sent := replicate 5 (download_request 1000), console := []\<rparr>)"
    using latency_loop_stalls[OF s n, of 15 "[]"]
    by (simp add: measureLatency_def c probes_stalls)
  have r: "fst (speedTest stats_spec w_stalls) = Inl Hangs"
    by (simp add: speedTest_def latencyStage_def await_then_def l)
  from n4 d u l r show ?thesis by (intro conjI)
qed

lemma all_fail_n: "list_all fails (probes w_all_fail 0 n)"
  by (simp add: w_all_fail_def probes_world_of list_all_iff)

text \<open>A run in which every connection is refused.\<close>

theorem all_probes_fail_invalid_input_witness:
  "list_all fails (probes w_all_fail (length (sent w_all_fail)) 20)
   \<and> list_all fails (probes w_all_fail (length (sent w_all_fail)) 43)
   \<and> list_all fails (probes w_all_fail (length (sent w_all_fail)) 28)
   \<and> fst (measureLatency stats_spec w_all_fail) = Inl (Throws InvalidInput)
   \<and> fst (speedTest stats_spec w_all_fail) = Inl (Throws InvalidInput)
   \<and> fst (downloadStage stats_spec w_all_fail) = Inl (Throws InvalidInput)
   \<and> fst (uploadStage stats_spec w_all_fail) = Inl (Throws InvalidInput)"
proof -
  have b: "length (sent w_all_fail) = 0"
    by (simp add: w_all_fail_def world_of_simps)
  have f: "list_all fails (probes w_all_fail (length (sent w_all_fail)) n)" for n
    by (simp only: b all_fail_n)
  from f[of 20] f[of 43] f[of 28] all_probes_fail_invalid_input[of w_all_fail]
  show ?thesis by (intro conjI) simp_all
qed

text \<open>A run whose first response has a timing header without a number.\<close>

theorem unparsed_timing_not_skipped_witness:
  "net w_garbled (length (sent w_garbled)) = ResEnd x_garbled
   \<and> server_timing x_garbled = Some ''cfRequestDuration;dur=n/a''
   \<and> parseFloat (drop 22 ''cfRequestDuration;dur=n/a'') = NaN
   \<and> latency_loop (Suc 19) [] w_garbled =
       latency_loop 19 [NaN] (w_garbled\<lparr>sent := [download_request 1000]\<rparr>)
   \<and> upload_loop 11000 (Suc 9) [] w_garbled =
       upload_loop 11000 9 [NaN] (w_garbled\<lparr>sent := [upload_request 11000]\<rparr>)
   \<and> download_loop 11000 (Suc 9) [] w_garbled =
       download_loop 11000 9 [Num (7926335344172073 / 4503599627370496)]
         (w_garbled\<lparr>sent := [download_request 11000]\<rparr>)"
proof -
  have n: "net w_garbled (length (sent w_garbled)) = ResEnd x_garbled"
    by (simp add: w_garbled_def world_of_simps)
  have h: "server_timing x_garbled = Some ''cfRequestDuration;dur=n/a''"
    by (rule server_timing_examples)
  have p: "parseFloat (drop 22 ''cfRequestDuration;dur=n/a'') = NaN"
    by (simp add: parseFloat_garbled)
  have x: "now_end x_garbled = Num 90" "now_readable x_garbled = Some (Num 40)"
    by (simp_all add: x_garbled_def x_ok_def)
  have s: "sent w_garbled = []"
    by (simp add: w_garbled_def world_of_simps)
  have fit: "\<not> max_string_length w_garbled < 11000"
    using max_string_length_ge[of 11000 w_garbled] by simp
  note step = unparsed_timing_not_skipped[OF n h p]
  have l: "latency_loop (Suc 19) [] w_garbled =
       latency_loop 19 [NaN] (w_garbled\<lparr>sent := [download_request 1000]\<rparr>)"
    using step[of 19 "[]" 0, THEN conjunct1] by (simp add: s)
  have u: "upload_loop 11000 (Suc 9) [] w_garbled =
       upload_loop 11000 9 [NaN] (w_garbled\<lparr>sent := [upload_request 11000]\<rparr>)"
    using step[of 9 "[]" 11000, THEN conjunct2, THEN conjunct1] by (simp add: s fit)
  have d: "download_loop 11000 (Suc 9) [] w_garbled =
       download_loop 11000 9 [Num (7926335344172073 / 4503599627370496)]
         (w_garbled\<lparr>sent := [download_request 11000]\<rparr>)"
    using step[of 9 "[]" 11000, THEN conjunct2, THEN conjunct2]
    by (simp add: s x transfer_ok num_of_nat_sizes download_50ms)
  from n h p l u d show ?thesis by (intro conjI)
qed

lemma probes_garbled_2:
  "upload_samples 11000 (probes w_garbled 0 2) =
     [NaN, Num (7926335344172073 / 2251799813685248)]"
  "rejected (probes w_garbled 0 2) = []"
  "list_all settles (probes w_garbled 0 2)"
  by (simp_all add: w_garbled_def run_eval num_of_nat_sizes throughput_NaN upload_25ms
      upt_conv_Cons del: upt_Suc)

lemma measureUpload_bare:
  "measureUpload 11000 2 w_bare = (Inl (Throws TypeError), w_bare\<lparr>sent := [upload_request 11000]\<rparr>)"
proof -
  have "upload 11000 w_bare = (Uncaught TypeError, w_bare\<lparr>sent := [upload_request 11000]\<rparr>)"
    by (simp add: upload_fits max_string_length_ge w_bare_def world_of_simps on_outcome_x_bare)
  then show ?thesis
    by (simp add: measureUpload_def numeral_2_eq_2)
qed

text \<open>
  The claim as stated does not hold. In an upload measurement of two probes whose first
  response has a timing header without a number, the probe is not skipped and nothing
  is reported: its sample is \<open>NaN\<close>. Where the first response has no timing header,
  the measurement ends with a TypeError after one request.
\<close>

theorem malformed_timing_counterexample:
  "measureUpload 11000 2 w_garbled =
     (Inr [NaN, Num (7926335344172073 / 2251799813685248)],
      w_garbled\<lparr>sent := [upload_request 11000, upload_request 11000], console := []\<rparr>)
   \<and> measureUpload 11000 2 w_bare =
     (Inl (Throws TypeError), w_bare\<lparr>sent := [upload_request 11000]\<rparr>)"
proof
  have b: "length (sent w_garbled) = 0"
    by (simp add: w_garbled_def world_of_simps)
  have c: "sent w_garbled = []" "console w_garbled = []"
    by (simp_all add: w_garbled_def world_of_simps)
  have s: "list_all settles (probes w_garbled (length (sent w_garbled)) 2)"
    by (simp only: b probes_garbled_2)
  show "measureUpload 11000 2 w_garbled =
     (Inr [NaN, Num (7926335344172073 / 2251799813685248)],
      w_garbled\<lparr>sent := [upload_request 11000, upload_request 11000], console := []\<rparr>)"
    using upload_loop_run[OF s max_string_length_ge, of 11000 "[]"] unfolding b probes_garbled_2
    by (simp add: measureUpload_def c numeral_2_eq_2)
  show "measureUpload 11000 2 w_bare =
     (Inl (Throws TypeError), w_bare\<lparr>sent := [upload_request 11000]\<rparr>)"
    by (rule measureUpload_bare)
qed

lemma decimal_11000: "decimal 11000 = ''11000''"
  by (simp add: decimal.simps digit_chars)

lemma max_string_length_fresh: "max_string_length w_fresh = 268435440"
  by (simp add: max_string_length_def w_fresh_def world_of_def)

text \<open>
  A download and an upload of 11000 bytes, and an upload of \<open>2^53\<close> bytes, where the
  engine allows strings of \<open>2^28 - 16\<close> characters.
\<close>

theorem probe_requests_witness:
  "(11000::nat) < 2 ^ 53
   \<and> 11000 \<le> max_string_length w_fresh
   \<and> max_string_length w_fresh < 9007199254740992
   \<and> download 11000 w_fresh =
       (on_outcome (ResEnd x_ok), w_fresh\<lparr>sent := [download_request 11000]\<rparr>)
   \<and> http_method (fst (download_request 11000)) = ''GET''
   \<and> path (fst (download_request 11000)) = ''/__down?bytes=11000''
   \<and> query_bytes (path (fst (download_request 11000))) = Some 11000
   \<and> upload 11000 w_fresh =
       (on_outcome (ResEnd x_ok), w_fresh\<lparr>sent := [upload_request 11000]\<rparr>)
   \<and> http_method (fst (upload_request 11000)) = ''POST''
   \<and> byteLength (snd (upload_request 11000)) = 11000
   \<and> headers (fst (upload_request 11000)) = [(''Content-Length'', 11000)]
   \<and> upload 9007199254740992 w_fresh = (Uncaught RangeError, w_fresh)"
proof -
  have a: "(11000::nat) < 2 ^ 53" by simp
  have b: "11000 \<le> max_string_length w_fresh"
    by (simp add: max_string_length_fresh)
  have c: "max_string_length w_fresh < 9007199254740992"
    by (simp add: max_string_length_fresh)
  have w: "sent w_fresh = []" "net w_fresh 0 = ResEnd x_ok"
    by (simp_all add: w_fresh_def world_of_simps)
  note req = probe_requests[OF a b c]
  have d: "download 11000 w_fresh =
       (on_outcome (ResEnd x_ok), w_fresh\<lparr>sent := [download_request 11000]\<rparr>)"
    using req[THEN conjunct1] by (simp add: w)
  have g: "http_method (fst (download_request 11000)) = ''GET''"
    using req by (elim conjE)
  have p: "path (fst (download_request 11000)) = ''/__down?bytes=11000''"
    using req[THEN conjunct2, THEN conjunct2, THEN conjunct1] by (simp add: decimal_11000)
  have q: "query_bytes (path (fst (download_request 11000))) = Some 11000"
    using req by (elim conjE)
  have u: "upload 11000 w_fresh =
       (on_outcome (ResEnd x_ok), w_fresh\<lparr>sent := [upload_request 11000]\<rparr>)"
    using req[THEN conjunct2, THEN conjunct2, THEN conjunct2, THEN conjunct2, THEN conjunct2,
        THEN conjunct1]
    by (simp add: w)
  have m: "http_method (fst (upload_request 11000)) = ''POST''"
    using req by (elim conjE)
  have l: "byteLength (snd (upload_request 11000)) = 11000"
    using req by (elim conjE)
  have h: "headers (fst (upload_request 11000)) = [(''Content-Length'', 11000)]"
    using req by (elim conjE) simp
  have r: "upload 9007199254740992 w_fresh = (Uncaught RangeError, w_fresh)"
    using req by (elim conjE)
  from a b c d g p q u m l h r show ?thesis by (intro conjI)
qed

lemma rnd_1e21:
  "rnd 1000000000000000000000 = Num 1000000000000000000000"
  "rnd 2000000000000000000000 = Num 2000000000000000000000"
  by code_simp+

lemma decimal_1e21: "decimal 1000000000000000000000 = ''1000000000000000000000''"
  by (simp add: decimal.simps digit_chars)

lemma shortest_1e21: "shortest 1000000000000000000000 22 (Suc 0) = 1000000000000000000000"
  by (subst shortest.simps) (simp add: Let_def rnd_1e21)

lemma decimal_21: "decimal 21 = ''21''"
  by (simp add: decimal.simps digit_chars)

lemma toString_1e21: "toString 1000000000000000000000 = ''1e+21''"
proof -
  have len: "length (decimal 1000000000000000000000) = 22"
    by (simp add: decimal_1e21)
  have l: "length ''1000000000000000000000'' = 22"
    by simp
  have e: "exponent_notation 1000000000000000000000 = ''1e+21''"
    unfolding exponent_notation_def Let_def decimal_1e21 l
    by (simp add: decimal_21)
  show ?thesis
    by (simp add: toString_def num_of_nat_def rnd_1e21 len shortest_1e21 e)
qed

lemma query_bytes_1e21: "query_bytes ''/__down?bytes=1e+21'' = None"
  by code_simp

text \<open>
  The claim as stated, for every payload size, does not hold. An upload of \<open>2^53\<close>
  bytes, more than any string can hold, throws a RangeError: no request is issued and
  the measurement ends. A download of \<open>10^21\<close> bytes asks for \<^verbatim>\<open>bytes=1e+21\<close>,
  which is not a decimal byte count.
\<close>

theorem probe_requests_counterexample:
  "upload 9007199254740992 w_fresh = (Uncaught RangeError, w_fresh)
   \<and> sent (snd (upload 9007199254740992 w_fresh)) = []
   \<and> measureUpload 9007199254740992 10 w_fresh = (Inl (Throws RangeError), w_fresh)
   \<and> path (fst (download_request 1000000000000000000000)) = ''/__down?bytes=1e+21''
   \<and> query_bytes (path (fst (download_request 1000000000000000000000))) = None"
proof -
  have "max_string_length w_fresh < 9007199254740992"
    by (simp add: max_string_length_fresh)
  then have u: "upload 9007199254740992 w_fresh = (Uncaught RangeError, w_fresh)"
    by (rule upload_too_long)
  have e: "sent w_fresh = []"
    by (simp add: w_fresh_def world_of_simps)
  have s: "sent (snd (upload 9007199254740992 w_fresh)) = []"
    by (simp only: u snd_conv e)
  have ten: "(10::nat) = Suc 9"
    by simp
  have m: "measureUpload 9007199254740992 10 w_fresh = (Inl (Throws RangeError), w_fresh)"
    unfolding measureUpload_def
    by (subst ten) (simp only: upload_loop.simps u prod.case settled.case)
  have p: "path (fst (download_request 1000000000000000000000)) = ''/__down?bytes=1e+21''"
    by (simp add: download_path toString_1e21)
  have q: "query_bytes (path (fst (download_request 1000000000000000000000))) = None"
    by (simp only: p query_bytes_1e21)
  from u s m p q show ?thesis by (intro conjI)
qed

lemma erase_fresh_reused: "erase_world w_fresh = erase_world w_reused"
  by (simp add: erase_world_def w_fresh_def w_reused_def world_of_def x_reused_def x_ok_def)

text \<open>
  Two runs with the same exchanges, one on fresh connections and one on reused
  connections, where no connection-establishment event fires.
\<close>

theorem conn_timestamps_unread_witness:
  "erase_world w_fresh = erase_world w_reused
   \<and> net w_fresh 0 \<noteq> net w_reused 0
   \<and> fst (measureLatency stats_spec w_fresh) = fst (measureLatency stats_spec w_reused)
   \<and> fst (measureDownload 11000 10 w_fresh) = fst (measureDownload 11000 10 w_reused)
   \<and> fst (measureUpload 11000 10 w_fresh) = fst (measureUpload 11000 10 w_reused)
   \<and> fst (speedTest stats_spec w_fresh) = fst (speedTest stats_spec w_reused)
   \<and> console (snd (speedTest stats_spec w_fresh)) = console (snd (speedTest stats_spec w_reused))"
proof -
  have d: "net w_fresh 0 \<noteq> net w_reused 0"
    by (simp add: w_fresh_def w_reused_def world_of_simps x_reused_def x_ok_def)
  from erase_fresh_reused d
    conn_timestamps_unread[OF erase_fresh_reused, of stats_spec 11000 10]
  show ?thesis by (intro conjI) simp_all
qed

lemma probes_one_fails_upload:
  "upload_samples 11000 (probes w_one_fails 0 10) =
     replicate 9 (Num (7926335344172073 / 2251799813685248))"
  "upload_samples 101000 (probes w_one_fails (0 + 10) 10) =
     replicate 10 (Num (4548635623644201 / 140737488355328))"
  "upload_samples 1001000 (probes w_one_fails (0 + 20) 8) =
     replicate 8 (Num (5635129033747333 / 17592186044416))"
  "rejected (probes w_one_fails 0 28) = [''Error: read ECONNRESET'']"
  "list_all settles (probes w_one_fails 0 28)"
  by (simp_all add: w_one_fails_def run_eval num_of_nat_sizes upload_25ms replicate_numeral_eval
      upt_conv_Cons del: upt_Suc)

lemma index_26:
  "jmul lit_0_9 (Num 26) = Num (6586514455029351 / 281474976710656)"
  by code_simp

lemma floor_index_26:
  "\<lfloor>6586514455029351 / 281474976710656 :: rat\<rfloor> = 23"
  "\<lceil>6586514455029351 / 281474976710656 :: rat\<rceil> = 24"
  by code_simp+

lemma interpolate_upload:
  "jadd (Num (5635129033747333 / 17592186044416))
     (jmul (jsub (Num (6586514455029351 / 281474976710656)) (Num 23))
        (jsub (Num (5635129033747333 / 17592186044416))
           (Num (5635129033747333 / 17592186044416)))) =
   Num (5635129033747333 / 17592186044416)"
  by code_simp

lemma quartile_one_fails_upload:
  "quartile stats_spec
     (replicate 9 (Num (7926335344172073 / 2251799813685248))
      @ replicate 10 (Num (4548635623644201 / 140737488355328))
      @ replicate 8 (Num (5635129033747333 / 17592186044416))) lit_0_9 =
   Inr (Num (5635129033747333 / 17592186044416))"
  by (simp add: stats_spec_def quantile_spec_def sort_asc_def jlt_def replicate_numeral_eval
      Let_def num_of_nat_def rnd_numeral index_26 floor_index_26 interpolate_upload)

text \<open>
  An upload stage in which the fourth request fails and the server reports 25 ms for
  every other upload: the headline is the 90th percentile of the 27 samples.
\<close>

theorem uploadStage_report_witness:
  "list_all settles (probes w_one_fails (length (sent w_one_fails)) 28)
   \<and> quartile stats_spec
        (upload_samples 11000 (probes w_one_fails (length (sent w_one_fails)) 10)
         @ upload_samples 101000 (probes w_one_fails (length (sent w_one_fails) + 10) 10)
         @ upload_samples 1001000 (probes w_one_fails (length (sent w_one_fails) + 20) 8))
        lit_0_9 = Inr (Num (5635129033747333 / 17592186044416))
   \<and> uploadStage stats_spec w_one_fails =
       (Inr (),
        w_one_fails\<lparr>sent := replicate 10 (upload_request 11000)
                    @ replicate 10 (upload_request 101000)
                    @ replicate 8 (upload_request 1001000),
          console := [ErrorLine ''Error: read ECONNRESET'',
                      UploadLine (Num (5635129033747333 / 17592186044416))]\<rparr>)"
proof -
  have b: "length (sent w_one_fails) = 0"
    by (simp add: w_one_fails_def world_of_simps)
  have c: "sent w_one_fails = []" "console w_one_fails = []"
    by (simp_all add: w_one_fails_def world_of_simps)
  have s: "list_all settles (probes w_one_fails (length (sent w_one_fails)) 28)"
    by (simp only: b probes_one_fails_upload)
  have q: "quartile stats_spec
        (upload_samples 11000 (probes w_one_fails (length (sent w_one_fails)) 10)
         @ upload_samples 101000 (probes w_one_fails (length (sent w_one_fails) + 10) 10)
         @ upload_samples 1001000 (probes w_one_fails (length (sent w_one_fails) + 20) 8))
        lit_0_9 = Inr (Num (5635129033747333 / 17592186044416))"
    by (simp only: b probes_one_fails_upload quartile_one_fails_upload)
  from uploadStage_report[OF s refl refl refl q]
  have "uploadStage stats_spec w_one_fails =
     (Inr (),
      w_one_fails\<lparr>sent := sent w_one_fails @ replicate 10 (upload_request 11000)
                @ replicate 10 (upload_request 101000)
                @ replicate 8 (upload_request 1001000),
        console := console w_one_fails
                     @ map ErrorLine (rejected (probes w_one_fails (length (sent w_one_fails)) 28))
                     @ [UploadLine (Num (5635129033747333 / 17592186044416))]\<rparr>)"
    by (rule conjunct1)
  then have "uploadStage stats_spec w_one_fails =
       (Inr (),
        w_one_fails\<lparr>sent := replicate 10 (upload_request 11000)
                    @ replicate 10 (upload_request 101000)
                    @ replicate 8 (upload_request 1001000),
          console := [ErrorLine ''Error: read ECONNRESET'',
                      UploadLine (Num (5635129033747333 / 17592186044416))]\<rparr>)"
    unfolding b probes_one_fails_upload by (simp add: c)
  with s q show ?thesis by (intro conjI)
qed

lemma probes_one_fails_download:
  "download_samples 11000 (probes w_one_fails 0 10) =
     replicate 9 (Num (7926335344172073 / 4503599627370496))"
  "download_samples 101000 (probes w_one_fails (0 + 10) 10) =
     replicate 10 (Num (4548635623644201 / 281474976710656))"
  "download_samples 1001000 (probes w_one_fails (0 + 20) 8) =
     replicate 8 (Num (5635129033747333 / 35184372088832))"
  "download_samples 10001000 (probes w_one_fails (0 + 28) 5) =
     replicate 5 (Num (7037578105208177 / 4398046511104))"
  "download_samples 25001000 (probes w_one_fails (0 + 33) 5) =
     replicate 5 (Num (1099555608241111 / 274877906944))"
  "download_samples 100001000 (probes w_one_fails (0 + 38) 5) =
     replicate 5 (Num (4398090491569111 / 274877906944))"
  by (simp_all add: w_one_fails_def run_eval transfer_ok num_of_nat_sizes download_50ms
      replicate_numeral_eval upt_conv_Cons del: upt_Suc)

lemma rejected_one_fails_download:
  "rejected (probes w_one_fails 0 10) = [''Error: read ECONNRESET'']"
  "rejected (probes w_one_fails (0 + 10) 10) = []"
  "rejected (probes w_one_fails (0 + 20) 8) = []"
  "rejected (probes w_one_fails (0 + 28) 5) = []"
  "rejected (probes w_one_fails (0 + 33) 5) = []"
  "rejected (probes w_one_fails (0 + 38) 5) = []"
  "list_all settles (probes w_one_fails 0 43)"
  by (simp_all add: w_one_fails_def run_eval upt_conv_Cons del: upt_Suc)

lemma mean_of_equal:
  "jdiv (jadd (Num (4548635623644201 / 281474976710656))
              (Num (4548635623644201 / 281474976710656))) (Num 2) =
   Num (4548635623644201 / 281474976710656)"
  "jdiv (jadd (Num (5635129033747333 / 35184372088832))
              (Num (5635129033747333 / 35184372088832))) (Num 2) =
   Num (5635129033747333 / 35184372088832)"
  by code_simp+

lemma medians_one_fails_download:
  "median stats_spec (replicate 9 (Num (7926335344172073 / 4503599627370496))) =
     Inr (Num (7926335344172073 / 4503599627370496))"
  "median stats_spec (replicate 10 (Num (4548635623644201 / 281474976710656))) =
     Inr (Num (4548635623644201 / 281474976710656))"
  "median stats_spec (replicate 8 (Num (5635129033747333 / 35184372088832))) =
     Inr (Num (5635129033747333 / 35184372088832))"
  "median stats_spec (replicate 5 (Num (7037578105208177 / 4398046511104))) =
     Inr (Num (7037578105208177 / 4398046511104))"
  "median stats_spec (replicate 5 (Num (1099555608241111 / 274877906944))) =
     Inr (Num (1099555608241111 / 274877906944))"
  "median stats_spec (replicate 5 (Num (4398090491569111 / 274877906944))) =
     Inr (Num (4398090491569111 / 274877906944))"
  by (simp_all add: stats_spec_def median_spec_def sort_asc_def jlt_def replicate_numeral_eval
      Let_def mean_of_equal)

lemma index_41:
  "jmul lit_0_9 (Num 41) = Num (5193213320311603 / 140737488355328)"
  by code_simp

lemma floor_index_41:
  "\<lfloor>5193213320311603 / 140737488355328 :: rat\<rfloor> = 36"
  "\<lceil>5193213320311603 / 140737488355328 :: rat\<rceil> = 37"
  by code_simp+

lemma interpolate_download:
  "jadd (Num (1099555608241111 / 274877906944))
     (jmul (jsub (Num (5193213320311603 / 140737488355328)) (Num 36))
        (jsub (Num (4398090491569111 / 274877906944))
           (Num (1099555608241111 / 274877906944)))) =
   Num (8136474006472613 / 549755813888)"
  by code_simp

lemma quartile_one_fails_download:
  "quartile stats_spec
     (replicate 9 (Num (7926335344172073 / 4503599627370496))
      @ replicate 10 (Num (4548635623644201 / 281474976710656))
      @ replicate 8 (Num (5635129033747333 / 35184372088832))
      @ replicate 5 (Num (7037578105208177 / 4398046511104))
      @ replicate 5 (Num (1099555608241111 / 274877906944))
      @ replicate 5 (Num (4398090491569111 / 274877906944))) lit_0_9 =
   Inr (Num (8136474006472613 / 549755813888))"
  by (simp add: stats_spec_def quantile_spec_def sort_asc_def jlt_def replicate_numeral_eval
      Let_def num_of_nat_def rnd_numeral index_41 floor_index_41 interpolate_download)

text \<open>
  A download stage in which the fourth request fails and every other transfer takes
  50 ms: about 1.76 Mbps for the 11000-byte probes, and a headline of about
  14800 Mbps between the medians of the two largest sizes.
\<close>

theorem downloadStage_report_witness:
  "list_all settles (probes w_one_fails (length (sent w_one_fails)) 43)
   \<and> downloadStage stats_spec w_one_fails =
       (Inr (),
        w_one_fails\<lparr>sent :=
            concat (map (\<lambda>(bytes, n). replicate n (download_request bytes)) download_plan),
          console :=
            [ErrorLine ''Error: read ECONNRESET'',
             SpeedLine ''10kB'' (Num (7926335344172073 / 4503599627370496)),
             SpeedLine ''100kB'' (Num (4548635623644201 / 281474976710656)),
             SpeedLine ''1MB'' (Num (5635129033747333 / 35184372088832)),
             SpeedLine ''10MB'' (Num (7037578105208177 / 4398046511104)),
             SpeedLine ''25MB'' (Num (1099555608241111 / 274877906944)),
             SpeedLine ''100MB'' (Num (4398090491569111 / 274877906944)),
             DownloadLine (Num (8136474006472613 / 549755813888))]\<rparr>)
   \<and> sorted_wrt (<) (map fst download_plan)"
proof -
  have b: "length (sent w_one_fails) = 0"
    by (simp add: w_one_fails_def world_of_simps)
  have c: "sent w_one_fails = []" "console w_one_fails = []"
    by (simp_all add: w_one_fails_def world_of_simps)
  have s: "list_all settles (probes w_one_fails (length (sent w_one_fails)) 43)"
    by (simp only: b rejected_one_fails_download)
  note m = medians_one_fails_download[folded probes_one_fails_download]
  note q = quartile_one_fails_download[folded probes_one_fails_download]
  note run = downloadStage_report[OF s refl refl refl refl refl refl,
      unfolded b, OF m q]
  have "downloadStage stats_spec w_one_fails =
       (Inr (),
        w_one_fails\<lparr>sent :=
            concat (map (\<lambda>(bytes, n). replicate n (download_request bytes)) download_plan),
          console :=
            [ErrorLine ''Error: read ECONNRESET'',
             SpeedLine ''10kB'' (Num (7926335344172073 / 4503599627370496)),
             SpeedLine ''100kB'' (Num (4548635623644201 / 281474976710656)),
             SpeedLine ''1MB'' (Num (5635129033747333 / 35184372088832)),
             SpeedLine ''10MB'' (Num (7037578105208177 / 4398046511104)),
             SpeedLine ''25MB'' (Num (1099555608241111 / 274877906944)),
             SpeedLine ''100MB'' (Num (4398090491569111 / 274877906944)),
             DownloadLine (Num (8136474006472613 / 549755813888))]\<rparr>)"
    using run[THEN conjunct1] unfolding rejected_one_fails_download by (simp add: c)
  with s run[THEN conjunct2, THEN conjunct1] show ?thesis by (intro conjI)
qed

section \<open>Checks of the arithmetic and of the statistics functions\<close>

text \<open>
  The arithmetic on a well-known case: \<^verbatim>\<open>0.1 + 0.2\<close> is \<^verbatim>\<open>0.30000000000000004\<close>, the
  Number above \<^verbatim>\<open>0.3\<close>.
\<close>

lemma tenth_plus_fifth:
  "rnd (1 / 10) = Num (3602879701896397 / 36028797018963968)"
  "rnd (2 / 10) = Num (3602879701896397 / 18014398509481984)"
  "rnd (3 / 10) = Num (5404319552844595 / 18014398509481984)"
  "jadd (Num (3602879701896397 / 36028797018963968)) (Num (3602879701896397 / 18014398509481984))
     = Num (5404319552844596 / 18014398509481984)"
  by code_simp+

text \<open>
  The statistics functions modelled from the specification, on the examples of its
  section 8 (the last one is the Number \<^verbatim>\<open>4.6\<close>).
\<close>

lemma rnd_5_2: "rnd (5 / 2) = Num (5 / 2)"
  by code_simp

lemma index_4: "jmul lit_0_9 (Num 4) = Num (8106479329266893 / 2251799813685248)"
  by code_simp

lemma floor_index_4:
  "\<lfloor>8106479329266893 / 2251799813685248 :: rat\<rfloor> = 3"
  "\<lceil>8106479329266893 / 2251799813685248 :: rat\<rceil> = 4"
  by code_simp+

lemma interpolate_4_5:
  "jadd (Num 4) (jmul (jsub (Num (8106479329266893 / 2251799813685248)) (Num 3))
     (jsub (Num 5) (Num 4))) = rnd (46 / 10)"
  by code_simp

lemma stats_spec_examples:
  "median stats_spec [Num 1, Num 2, Num 3, Num 4, Num 5] = Inr (Num 3)"
  "median stats_spec [Num 1, Num 2, Num 3, Num 4] = Inr (Num (5 / 2))"
  "average stats_spec [Num 10, Num 20, Num 30] = Inr (Num 20)"
  by (simp_all add: stats_spec_def median_spec_def average_spec_def sort_asc_def arith_eval
      rnd_5_2)

lemma quantile_spec_example:
  "quartile stats_spec [Num 1, Num 2, Num 3, Num 4, Num 5] lit_0_9 = Inr (rnd (46 / 10))"
  by (simp add: stats_spec_def quantile_spec_def sort_asc_def jlt_def Let_def num_of_nat_def
      rnd_numeral index_4 floor_index_4 interpolate_4_5)

end
